theory Spec2Isabelle
  imports Main
begin

section \<open>Strings and the pattern engine\<close>

text \<open>
  A JavaScript string is the sequence of its code units; \<open>length\<close> counts them.
  The model writes a code unit as a \<^typ>\<open>char\<close>, which covers U+0000 to U+00FF.
  Every marker and every pattern of the source is ASCII.
\<close>

definition dquote :: char where
  "dquote = CHR 0x22"

text \<open>The class \<open>\s\<close> of the engine, on the code units of the model.\<close>

definition is_space :: "char \<Rightarrow> bool" where
  "is_space c = (c \<in> set [CHR 0x09, CHR 0x0A, CHR 0x0B, CHR 0x0C, CHR 0x0D, CHR 0x20, CHR 0xA0])"

text \<open>The dot matches every code unit but a line terminator.\<close>

definition dot :: "char \<Rightarrow> bool" where
  "dot c = (c \<noteq> CHR 0x0A \<and> c \<noteq> CHR 0x0D)"

text \<open>
  Under the flag \<open>i\<close> (without \<open>u\<close>) two code units match when their canonical
  forms agree; the canonical form of an ASCII letter is its upper case, and no code
  unit above U+007F has an ASCII canonical form. Only ASCII letters occur in the
  patterns, so the upper case of ASCII is all the model needs.
\<close>

definition ascii_upper :: "char \<Rightarrow> char" where
  "ascii_upper c =
     (case map_of (zip ''abcdefghijklmnopqrstuvwxyz'' ''ABCDEFGHIJKLMNOPQRSTUVWXYZ'') c of
        Some u \<Rightarrow> u
      | None \<Rightarrow> c)"

text \<open>
  The patterns of the source, as data. A star is always over a single character
  class in the source, so \<open>Star\<close> takes the class. \<open>Group\<close> is a capturing group.
\<close>

datatype re =
    Eps
  | Atom "char \<Rightarrow> bool"
  | Seq re re
  | Alt re re
  | Star "char \<Rightarrow> bool"
  | Group re

text \<open>
  The engine backtracks: \<open>rmatch r (caps, s)\<close> lists, in the order in which the
  engine tries them, the ways \<open>r\<close> matches a prefix of \<open>s\<close>, each as the captures so
  far and the rest of the input. The first element is the match the engine reports.
  A greedy star tries the longest run first.
\<close>

fun star :: "(char \<Rightarrow> bool) \<Rightarrow> string \<Rightarrow> string list" where
  "star p [] = [[]]"
| "star p (c # cs) = (if p c then star p cs @ [c # cs] else [c # cs])"

fun rmatch :: "re \<Rightarrow> string list \<times> string \<Rightarrow> (string list \<times> string) list" where
  "rmatch Eps st = [st]"
| "rmatch (Atom p) (caps, s) =
     (case s of [] \<Rightarrow> [] | c # cs \<Rightarrow> if p c then [(caps, cs)] else [])"
| "rmatch (Seq a b) st = concat (map (rmatch b) (rmatch a st))"
| "rmatch (Alt a b) st = rmatch a st @ rmatch b st"
| "rmatch (Star p) (caps, s) = map (Pair caps) (star p s)"
| "rmatch (Group r) (caps, s) =
     map (\<lambda>(caps', s'). (caps' @ [take (length s - length s') s], s')) (rmatch r (caps, s))"

text \<open>\<open>String.prototype.match\<close> with a pattern without the flag \<open>g\<close>: the leftmost match.\<close>

fun search :: "re \<Rightarrow> string \<Rightarrow> (string list \<times> string) option" where
  "search r s =
     (case rmatch r ([], s) of
        m # _ \<Rightarrow> Some m
      | [] \<Rightarrow> (case s of [] \<Rightarrow> None | _ # cs \<Rightarrow> search r cs))"

declare search.simps [simp del]

text \<open>
  \<open>String.prototype.matchAll\<close> with a pattern with the flag \<open>g\<close>: the matches from
  left to right, each search starting where the last match ended, one code unit
  further after an empty match. The result lists the captures of each match.
\<close>

fun matchAll :: "re \<Rightarrow> string \<Rightarrow> string list list" where
  "matchAll r s =
     (case rmatch r ([], s) of
        (caps, rest) # _ \<Rightarrow>
          caps # (if length rest < length s then matchAll r rest
                  else (case s of [] \<Rightarrow> [] | _ # cs \<Rightarrow> matchAll r cs))
      | [] \<Rightarrow> (case s of [] \<Rightarrow> [] | _ # cs \<Rightarrow> matchAll r cs))"

declare matchAll.simps [simp del]

text \<open>Pattern shorthands: a literal, a literal under the flag \<open>i\<close>, \<open>+\<close>, \<open>?\<close>, \<open>{n}\<close>.\<close>

fun lit :: "string \<Rightarrow> re" where
  "lit [] = Eps"
| "lit (c # cs) = Seq (Atom (\<lambda>x. x = c)) (lit cs)"

fun lit_i :: "string \<Rightarrow> re" where
  "lit_i [] = Eps"
| "lit_i (c # cs) = Seq (Atom (\<lambda>x. ascii_upper x = ascii_upper c)) (lit_i cs)"

definition plus :: "(char \<Rightarrow> bool) \<Rightarrow> re" where
  "plus p = Seq (Atom p) (Star p)"

definition opt :: "re \<Rightarrow> re" where
  "opt r = Alt r Eps"

fun rep :: "nat \<Rightarrow> re \<Rightarrow> re" where
  "rep 0 r = Eps"
| "rep (Suc n) r = Seq r (rep n r)"

section \<open>The patterns of the module\<close>

text \<open>The class \<open>[^"&?\/\s]\<close> of an identifier's characters.\<close>

definition idchar :: "char \<Rightarrow> bool" where
  "idchar c = (c \<noteq> dquote \<and> c \<noteq> CHR ''&'' \<and> c \<noteq> CHR ''?'' \<and> c \<noteq> CHR ''/'' \<and> \<not> is_space c)"

definition slash :: "char \<Rightarrow> bool" where
  "slash c = (c = CHR ''/'')"

definition not_slash :: "char \<Rightarrow> bool" where
  "not_slash c = (c \<noteq> CHR ''/'')"

definition query_sep :: "char \<Rightarrow> bool" where
  "query_sep c = (c = CHR ''?'' \<or> c = CHR ''&'')"

text \<open>
  \<^verbatim>\<open>/(?:youtube\.com\/(?:[^\/]+\/.+\/|(?:v|e(?:mbed)?)\/|.*[?&]v=)|youtu\.be\/)([^"&?\/\s]{11})/i\<close>,
  with a name for each of the three alternatives after \<open>youtube.com/\<close> and for the
  group.
\<close>

definition RE_PATH :: re where
  "RE_PATH = Seq (plus not_slash) (Seq (Atom slash) (Seq (plus dot) (Atom slash)))"

definition RE_EMBED :: re where
  "RE_EMBED = Seq (Alt (lit_i ''v'') (Seq (lit_i ''e'') (opt (lit_i ''mbed'')))) (Atom slash)"

definition RE_QUERY :: re where
  "RE_QUERY = Seq (Star dot) (Seq (Atom query_sep) (lit_i ''v=''))"

definition RE_ID :: re where
  "RE_ID = Group (rep 11 (Atom idchar))"

definition RE_YOUTUBE :: re where
  "RE_YOUTUBE =
     Seq (Alt (Seq (lit_i ''youtube.com/'') (Alt RE_PATH (Alt RE_EMBED RE_QUERY)))
              (lit_i ''youtu.be/''))
         RE_ID"

text \<open>
  \<^verbatim>\<open>/<text start="([^"]*)" dur="([^"]*)">([^<]*)<\/text>/g\<close>
\<close>

definition not_dquote :: "char \<Rightarrow> bool" where
  "not_dquote c = (c \<noteq> dquote)"

definition not_lt :: "char \<Rightarrow> bool" where
  "not_lt c = (c \<noteq> CHR ''<'')"

definition RE_XML_TRANSCRIPT :: re where
  \<open>RE_XML_TRANSCRIPT =
     Seq (lit ''<text start="'')
    (Seq (Group (Star not_dquote))
    (Seq (lit ''" dur="'')
    (Seq (Group (Star not_dquote))
    (Seq (lit ''">'')
    (Seq (Group (Star not_lt))
         (lit ''</text>''))))))\<close>

text \<open>The pattern of the second attempt at the page's captions object:
  \<^verbatim>\<open>/"captions":\s*({[^}]+})/\<close>
\<close>

definition RE_CAPTIONS_OBJECT :: re where
  \<open>RE_CAPTIONS_OBJECT =
     Seq (lit ''"captions":'')
    (Seq (Star is_space)
         (Group (Seq (lit ''{'') (Seq (plus (\<lambda>c. c \<noteq> CHR ''}'')) (lit ''}'')))))\<close>

text \<open>Capture group \<open>n\<close> of a match, numbered from 1 as in the source.\<close>

definition capture :: "string list \<Rightarrow> nat \<Rightarrow> string" where
  "capture caps n = (if 0 < n \<and> n \<le> length caps then caps ! (n - 1) else [])"

definition USER_AGENT :: string where
  "USER_AGENT = ''Mozilla/5.0 (Macintosh; Intel Mac OS X 10_15_4) AppleWebKit/537.36 (KHTML, like Gecko) Chrome/85.0.4183.83 Safari/537.36,gzip(gfe)''"

section \<open>String operations\<close>

definition starts_with :: "string \<Rightarrow> string \<Rightarrow> bool" where
  "starts_with pre s = (take (length pre) s = pre)"

text \<open>\<open>s.includes(sub)\<close>\<close>

fun includes_js :: "string \<Rightarrow> string \<Rightarrow> bool" where
  "includes_js sub [] = (sub = [])"
| "includes_js sub (c # cs) = (starts_with sub (c # cs) \<or> includes_js sub cs)"

text \<open>\<open>s.split(sep)\<close> for a separator that is a string: \<open>cur\<close> is the piece being read.\<close>

fun split_from :: "string \<Rightarrow> string \<Rightarrow> string \<Rightarrow> string list" where
  "split_from sep cur [] = [cur]"
| "split_from sep cur (c # cs) =
     (if sep \<noteq> [] \<and> starts_with sep (c # cs)
      then cur # split_from sep [] (drop (length sep - 1) cs)
      else split_from sep (cur @ [c]) cs)"

definition split_js :: "string \<Rightarrow> string \<Rightarrow> string list" where
  "split_js sep s = (if sep = [] then map (\<lambda>c. [c]) s else split_from sep [] s)"

text \<open>\<open>s.replace(pat, new)\<close> for a pattern that is a string: the first occurrence only.\<close>

fun replace_first :: "string \<Rightarrow> string \<Rightarrow> string \<Rightarrow> string" where
  "replace_first pat new [] = (if pat = [] then new else [])"
| "replace_first pat new (c # cs) =
     (if starts_with pat (c # cs) then new @ drop (length pat) (c # cs)
      else c # replace_first pat new cs)"

section \<open>Values of the language\<close>

text \<open>
  A number is a double: not a number, an infinity (\<open>True\<close> for the negative one), or
  \<open>m * 2 ^ e\<close> written \<open>Finite m e\<close>. The module does no arithmetic.
\<close>

datatype number = NaN | Infinity bool | Finite int int

text \<open>What \<open>JSON.parse\<close> returns, and \<open>undefined\<close>. An object lists its own properties.\<close>

datatype jsval =
    JUndefined
  | JNull
  | JBool bool
  | JNum number
  | JStr string
  | JArr "jsval list"
  | JObj "(string \<times> jsval) list"

section \<open>Errors\<close>

text \<open>What the platform throws by itself: none of these is a class of the module.\<close>

datatype exception = TypeError | SyntaxError | FetchRejected

text \<open>
  The classes of the module, each with the arguments of its constructor, and
  \<open>Uncaught\<close> for an exception of the platform that the module lets through.
\<close>

datatype error =
    YoutubeTranscriptError string
  | YoutubeTranscriptTooManyRequestError
  | YoutubeTranscriptVideoUnavailableError string
  | YoutubeTranscriptDisabledError string
  | YoutubeTranscriptNotAvailableError string
  | YoutubeTranscriptNotAvailableLanguageError string "jsval list" string
  | Uncaught exception

text \<open>\<open>e instanceof YoutubeTranscriptError\<close>\<close>

fun is_YoutubeTranscriptError :: "error \<Rightarrow> bool" where
  "is_YoutubeTranscriptError (Uncaught _) = False"
| "is_YoutubeTranscriptError _ = True"

text \<open>The error is an instance of one of the five classes that extend the base class.\<close>

fun is_subclass_instance :: "error \<Rightarrow> bool" where
  "is_subclass_instance (YoutubeTranscriptError _) = False"
| "is_subclass_instance (Uncaught _) = False"
| "is_subclass_instance _ = True"

section \<open>Evaluation of expressions on values\<close>

text \<open>ToBoolean\<close>

fun truthy :: "jsval \<Rightarrow> bool" where
  "truthy JUndefined = False"
| "truthy JNull = False"
| "truthy (JBool b) = b"
| "truthy (JNum NaN) = False"
| "truthy (JNum (Infinity _)) = True"
| "truthy (JNum (Finite m e)) = (m \<noteq> 0)"
| "truthy (JStr s) = (s \<noteq> [])"
| "truthy (JArr _) = True"
| "truthy (JObj _) = True"

fun is_object :: "jsval \<Rightarrow> bool" where
  "is_object (JObj _) = True"
| "is_object _ = False"

text \<open>
  \<open>v?.k\<close> for the property names of the source (\<open>captions\<close>,
  \<open>playerCaptionsTracklistRenderer\<close>, \<open>captionTracks\<close>, \<open>languageCode\<close>,
  \<open>baseUrl\<close>): none of them is a property of a string, a number, a boolean, an
  array or of the prototype of an object.
\<close>

fun opt_get :: "jsval \<Rightarrow> string \<Rightarrow> jsval" where
  "opt_get (JObj kvs) k = (case map_of kvs k of Some x \<Rightarrow> x | None \<Rightarrow> JUndefined)"
| "opt_get _ k = JUndefined"

text \<open>\<open>v.k\<close>: reading a property of \<open>undefined\<close> or \<open>null\<close> throws.\<close>

fun get_prop :: "jsval \<Rightarrow> string \<Rightarrow> error + jsval" where
  "get_prop JUndefined k = Inl (Uncaught TypeError)"
| "get_prop JNull k = Inl (Uncaught TypeError)"
| "get_prop v k = Inr (opt_get v k)"

text \<open>\<open>v[0]\<close>\<close>

fun index0 :: "jsval \<Rightarrow> error + jsval" where
  "index0 JUndefined = Inl (Uncaught TypeError)"
| "index0 JNull = Inl (Uncaught TypeError)"
| "index0 (JArr xs) = Inr (case xs of [] \<Rightarrow> JUndefined | x # _ \<Rightarrow> x)"
| "index0 (JStr s) = Inr (case s of [] \<Rightarrow> JUndefined | c # _ \<Rightarrow> JStr [c])"
| "index0 (JObj kvs) = Inr (opt_get (JObj kvs) ''0'')"
| "index0 _ = Inr JUndefined"

text \<open>\<open>k in v\<close> for the property name \<open>captionTracks\<close>: it throws unless \<open>v\<close> is an object.\<close>

fun has_in :: "string \<Rightarrow> jsval \<Rightarrow> error + bool" where
  "has_in k (JObj kvs) = Inr (map_of kvs k \<noteq> None)"
| "has_in k (JArr xs) = Inr False"
| "has_in k _ = Inl (Uncaught TypeError)"

text \<open>
  \<open>Array.prototype.some\<close>, \<open>find\<close> and \<open>map\<close> with a callback that may throw. On a
  value that is not an array the method is missing, and calling it throws.
\<close>

fun some_list :: "(jsval \<Rightarrow> error + bool) \<Rightarrow> jsval list \<Rightarrow> error + bool" where
  "some_list f [] = Inr False"
| "some_list f (x # xs) =
     (case f x of Inl e \<Rightarrow> Inl e | Inr b \<Rightarrow> if b then Inr True else some_list f xs)"

fun find_list :: "(jsval \<Rightarrow> error + bool) \<Rightarrow> jsval list \<Rightarrow> error + jsval" where
  "find_list f [] = Inr JUndefined"
| "find_list f (x # xs) =
     (case f x of Inl e \<Rightarrow> Inl e | Inr b \<Rightarrow> if b then Inr x else find_list f xs)"

fun map_list :: "('a \<Rightarrow> error + 'b) \<Rightarrow> 'a list \<Rightarrow> error + 'b list" where
  "map_list f [] = Inr []"
| "map_list f (x # xs) =
     (case f x of
        Inl e \<Rightarrow> Inl e
      | Inr y \<Rightarrow> (case map_list f xs of Inl e \<Rightarrow> Inl e | Inr ys \<Rightarrow> Inr (y # ys)))"

fun some_js :: "(jsval \<Rightarrow> error + bool) \<Rightarrow> jsval \<Rightarrow> error + bool" where
  "some_js f (JArr xs) = some_list f xs"
| "some_js f _ = Inl (Uncaught TypeError)"

fun find_js :: "(jsval \<Rightarrow> error + bool) \<Rightarrow> jsval \<Rightarrow> error + jsval" where
  "find_js f (JArr xs) = find_list f xs"
| "find_js f _ = Inl (Uncaught TypeError)"

fun map_js :: "(jsval \<Rightarrow> error + jsval) \<Rightarrow> jsval \<Rightarrow> error + jsval list" where
  "map_js f (JArr xs) = map_list f xs"
| "map_js f _ = Inl (Uncaught TypeError)"

section \<open>The platform and the network\<close>

datatype http_method = GET | POST

text \<open>
  A call of \<open>fetch\<close>: its first argument, as the value handed over, and its options.
  The body is the string that \<open>JSON.stringify\<close> returned.
\<close>

record request =
  req_method :: http_method
  url :: jsval
  headers :: "(string \<times> string) list"
  body :: "string option"

text \<open>A response: \<open>ok\<close>, and what reading the body gives, \<open>None\<close> when reading it fails.\<close>

record response =
  resp_ok :: bool
  resp_text :: "string option"

text \<open>
  The collaborators of the module: the network (\<open>None\<close> when \<open>fetch\<close> rejects), the
  JSON parser (\<open>None\<close> when it throws), the JSON serialiser and \<open>parseFloat\<close>.
\<close>

record env =
  net :: "request \<Rightarrow> response option"
  JSON_parse :: "string \<Rightarrow> jsval option"
  JSON_stringify :: "jsval \<Rightarrow> string"
  parseFloat :: "string \<Rightarrow> number"

text \<open>The effect of the module on the world is the sequence of its calls of \<open>fetch\<close>.\<close>

type_synonym world = "request list"

definition fetch :: "env \<Rightarrow> request \<Rightarrow> world \<Rightarrow> response option \<times> world" where
  "fetch e req w = (net e req, w @ [req])"

section \<open>The configuration and the output\<close>

record TranscriptConfig =
  lang :: "string option"

text \<open>The fields \<open>text\<close> and \<open>lang\<close> of a segment are \<open>text_of\<close> and \<open>lang_of\<close> here.\<close>

record TranscriptResponse =
  text_of :: string
  duration :: number
  offset :: number
  lang_of :: jsval

text \<open>\<open>config?.lang\<close>\<close>

definition config_lang :: "TranscriptConfig option \<Rightarrow> string option" where
  "config_lang config = (case config of None \<Rightarrow> None | Some c \<Rightarrow> lang c)"

text \<open>\<open>config?.lang\<close> where the source tests it: \<open>undefined\<close> and the empty string are falsy.\<close>

definition requested_lang :: "TranscriptConfig option \<Rightarrow> string option" where
  "requested_lang config =
     (case config_lang config of None \<Rightarrow> None | Some l \<Rightarrow> if l = [] then None else Some l)"

text \<open>\<open>...(config?.lang && { 'Accept-Language': config.lang })\<close>\<close>

definition accept_language :: "TranscriptConfig option \<Rightarrow> (string \<times> string) list" where
  "accept_language config =
     (case requested_lang config of None \<Rightarrow> [] | Some l \<Rightarrow> [(''Accept-Language'', l)])"

section \<open>retrieveVideoId\<close>

definition retrieveVideoId :: "string \<Rightarrow> error + string" where
  "retrieveVideoId videoId =
     (if length videoId = 11 then Inr videoId
      else (case search RE_YOUTUBE videoId of
              Some (caps, _) \<Rightarrow> Inr (capture caps 1)
            | None \<Rightarrow> Inl (YoutubeTranscriptError ''Impossible to retrieve Youtube video ID.'')))"

section \<open>fetchTranscript\<close>

subsection \<open>The requests\<close>

definition watch_url :: "string \<Rightarrow> string" where
  "watch_url identifier = ''https://www.youtube.com/watch?v='' @ identifier"

definition page_request :: "string \<Rightarrow> TranscriptConfig option \<Rightarrow> request" where
  "page_request identifier config =
     \<lparr> req_method = GET, url = JStr (watch_url identifier),
       headers = accept_language config @ [(''User-Agent'', USER_AGENT)],
       body = None \<rparr>"

definition track_request :: "jsval \<Rightarrow> TranscriptConfig option \<Rightarrow> request" where
  "track_request transcriptURL config =
     \<lparr> req_method = GET, url = transcriptURL,
       headers = accept_language config @ [(''User-Agent'', USER_AGENT)],
       body = None \<rparr>"

definition innertube_body :: "string \<Rightarrow> jsval" where
  "innertube_body identifier =
     JObj [(''context'',
             JObj [(''client'',
                     JObj [(''clientName'', JStr ''WEB''),
                           (''clientVersion'', JStr ''2.20241211.01.00'')])]),
           (''videoId'', JStr identifier)]"

definition innertube_request :: "env \<Rightarrow> string \<Rightarrow> request" where
  "innertube_request e identifier =
     \<lparr> req_method = POST, url = JStr ''https://www.youtube.com/youtubei/v1/player'',
       headers = [(''Content-Type'', ''application/json''),
                  (''User-Agent'', USER_AGENT),
                  (''Referer'', watch_url identifier),
                  (''Origin'', ''https://www.youtube.com'')],
       body = Some (JSON_stringify e (innertube_body identifier)) \<rparr>"

definition innertube_track_request ::
  "string \<Rightarrow> jsval \<Rightarrow> TranscriptConfig option \<Rightarrow> request" where
  "innertube_track_request identifier innerTubeTranscriptURL config =
     \<lparr> req_method = GET, url = innerTubeTranscriptURL,
       headers = accept_language config
                 @ [(''User-Agent'', USER_AGENT), (''Referer'', watch_url identifier)],
       body = None \<rparr>"

subsection \<open>The captions of the watch page\<close>

text \<open>
  The function called in place that parses the captions object: \<open>JSON.parse\<close> of
  the text between the marker and \<open>,"videoDetails\<close>, without its first line feed,
  and, when that throws, of the object that the second pattern finds in the page.
  The second \<open>JSON.parse\<close> is not guarded. \<open>afterMarker\<close> is \<open>splittedHTML[1]\<close>;
  \<open>split\<close> returns at least one piece.
\<close>

definition parse_captions :: "env \<Rightarrow> string \<Rightarrow> string \<Rightarrow> error + jsval" where
  \<open>parse_captions e videoPageBody afterMarker =
     (case JSON_parse e
             (replace_first [CHR 0x0A] []
                (case split_js '',"videoDetails'' afterMarker of
                   piece # _ \<Rightarrow> piece
                 | [] \<Rightarrow> [])) of
        Some v \<Rightarrow> Inr v
      | None \<Rightarrow>
          (case search RE_CAPTIONS_OBJECT videoPageBody of
             Some (altMatch, _) \<Rightarrow>
               (case JSON_parse e (capture altMatch 1) of
                  Some v \<Rightarrow> Inr v
                | None \<Rightarrow> Inl (Uncaught SyntaxError))
           | None \<Rightarrow> Inr JUndefined))\<close>

text \<open>
  The body of the \<open>try\<close> block once the page is read: what it throws or assigns.
  The first case is \<open>splittedHTML.length > 1\<close>, the second \<open>splittedHTML.length <= 1\<close>.
\<close>

definition page_captions :: "env \<Rightarrow> string \<Rightarrow> string \<Rightarrow> error + jsval" where
  \<open>page_captions e videoId videoPageBody =
     (case split_js ''"captions":'' videoPageBody of
        _ # afterMarker # _ \<Rightarrow>
          (case parse_captions e videoPageBody afterMarker of
             Inl err \<Rightarrow> Inl err
           | Inr v \<Rightarrow> Inr (opt_get v ''playerCaptionsTracklistRenderer''))
      | _ \<Rightarrow>
          (if includes_js ''class="g-recaptcha"'' videoPageBody
             then Inl YoutubeTranscriptTooManyRequestError
           else if \<not> includes_js ''"playabilityStatus":'' videoPageBody
             then Inl (YoutubeTranscriptVideoUnavailableError videoId)
           else Inl (YoutubeTranscriptDisabledError videoId)))\<close>

text \<open>
  The \<open>try\<close> statement: the page is fetched and read inside it, and its \<open>catch\<close>
  clause catches everything and assigns \<open>null\<close>.
\<close>

definition locate_captions ::
  "env \<Rightarrow> string \<Rightarrow> string \<Rightarrow> TranscriptConfig option \<Rightarrow> world \<Rightarrow> jsval \<times> world" where
  "locate_captions e videoId identifier config w =
     (case fetch e (page_request identifier config) w of
        (None, w') \<Rightarrow> (JNull, w')
      | (Some videoPageResponse, w') \<Rightarrow>
          (case resp_text videoPageResponse of
             None \<Rightarrow> (JNull, w')
           | Some videoPageBody \<Rightarrow>
               (case page_captions e videoId videoPageBody of
                  Inl err \<Rightarrow> (JNull, w')
                | Inr captions \<Rightarrow> (captions, w'))))"

subsection \<open>The choice of a track\<close>

text \<open>\<open>track.languageCode === l\<close>\<close>

definition has_language :: "string \<Rightarrow> jsval \<Rightarrow> error + bool" where
  "has_language l track =
     (case get_prop track ''languageCode'' of
        Inl err \<Rightarrow> Inl err
      | Inr code \<Rightarrow> Inr (code = JStr l))"

text \<open>The test of the requested language on \<open>captions.captionTracks\<close>.\<close>

definition check_language ::
  "string \<Rightarrow> TranscriptConfig option \<Rightarrow> jsval \<Rightarrow> error + unit" where
  "check_language videoId config captionTracks =
     (case requested_lang config of
        None \<Rightarrow> Inr ()
      | Some l \<Rightarrow>
          (case some_js (has_language l) captionTracks of
             Inl err \<Rightarrow> Inl err
           | Inr found \<Rightarrow>
               if found then Inr ()
               else (case map_js (\<lambda>track. get_prop track ''languageCode'') captionTracks of
                       Inl err \<Rightarrow> Inl err
                     | Inr codes \<Rightarrow>
                         Inl (YoutubeTranscriptNotAvailableLanguageError l codes videoId))))"

text \<open>
  \<open>config?.lang ? captionTracks.find(...) : captionTracks[0]\<close>, the track whose
  \<open>baseUrl\<close> is read; the source has the expression once for each catalog.
\<close>

definition selected_track :: "TranscriptConfig option \<Rightarrow> jsval \<Rightarrow> error + jsval" where
  "selected_track config captionTracks =
     (case requested_lang config of
        Some l \<Rightarrow> find_js (has_language l) captionTracks
      | None \<Rightarrow> index0 captionTracks)"

definition track_url :: "TranscriptConfig option \<Rightarrow> jsval \<Rightarrow> error + jsval" where
  "track_url config captionTracks =
     (case selected_track config captionTracks of
        Inl err \<Rightarrow> Inl err
      | Inr track \<Rightarrow> get_prop track ''baseUrl'')"

text \<open>The test of the language, then the choice: the track selection on the first catalog.\<close>

definition select_track ::
  "string \<Rightarrow> TranscriptConfig option \<Rightarrow> jsval \<Rightarrow> error + jsval" where
  "select_track videoId config captionTracks =
     (case check_language videoId config captionTracks of
        Inl err \<Rightarrow> Inl err
      | Inr _ \<Rightarrow> selected_track config captionTracks)"

text \<open>From the captions that were located to \<open>transcriptURL\<close>, or to what is thrown.\<close>

definition select_url ::
  "string \<Rightarrow> TranscriptConfig option \<Rightarrow> jsval \<Rightarrow> error + jsval" where
  "select_url videoId config captions =
     (if \<not> truthy captions then Inl (YoutubeTranscriptDisabledError videoId)
      else
        (case has_in ''captionTracks'' captions of
           Inl err \<Rightarrow> Inl err
         | Inr present \<Rightarrow>
             if \<not> present then Inl (YoutubeTranscriptNotAvailableError videoId)
             else
               (case select_track videoId config (opt_get captions ''captionTracks'') of
                  Inl err \<Rightarrow> Inl err
                | Inr track \<Rightarrow> get_prop track ''baseUrl'')))"

subsection \<open>The segments of a timed-text body\<close>

text \<open>\<open>config?.lang ?? captions.captionTracks[0].languageCode\<close>\<close>

definition segment_lang :: "TranscriptConfig option \<Rightarrow> jsval \<Rightarrow> error + jsval" where
  "segment_lang config captions =
     (case config_lang config of
        Some l \<Rightarrow> Inr (JStr l)
      | None \<Rightarrow>
          (case get_prop captions ''captionTracks'' of
             Inl err \<Rightarrow> Inl err
           | Inr captionTracks \<Rightarrow>
               (case index0 captionTracks of
                  Inl err \<Rightarrow> Inl err
                | Inr track \<Rightarrow> get_prop track ''languageCode'')))"

text \<open>\<open>[...body.matchAll(RE_XML_TRANSCRIPT)].map(...)\<close>\<close>

definition segments ::
  "env \<Rightarrow> TranscriptConfig option \<Rightarrow> jsval \<Rightarrow> string \<Rightarrow> error + TranscriptResponse list" where
  "segments e config captions transcriptBody =
     map_list
       (\<lambda>result.
          (case segment_lang config captions of
             Inl err \<Rightarrow> Inl err
           | Inr l \<Rightarrow>
               Inr \<lparr> text_of = capture result 3,
                     duration = parseFloat e (capture result 2),
                     offset = parseFloat e (capture result 1),
                     lang_of = l \<rparr>))
       (matchAll RE_XML_TRANSCRIPT transcriptBody)"

subsection \<open>The second pipeline\<close>

text \<open>
  The \<open>try\<close> block of the second pipeline: \<open>Inl\<close> for what is thrown inside it,
  \<open>Inr None\<close> when control reaches its end, \<open>Inr (Some r)\<close> when it returns \<open>r\<close>.
\<close>

definition innertube_try ::
  "env \<Rightarrow> string \<Rightarrow> TranscriptConfig option \<Rightarrow> world
     \<Rightarrow> (error + TranscriptResponse list option) \<times> world" where
  "innertube_try e identifier config w =
     (case fetch e (innertube_request e identifier) w of
        (None, w1) \<Rightarrow> (Inl (Uncaught FetchRejected), w1)
      | (Some InnerTubeApiResponse, w1) \<Rightarrow>
          if \<not> resp_ok InnerTubeApiResponse then (Inr None, w1)
          else
            (case resp_text InnerTubeApiResponse of
               None \<Rightarrow> (Inl (Uncaught FetchRejected), w1)
             | Some t \<Rightarrow>
            (case JSON_parse e t of
               None \<Rightarrow> (Inl (Uncaught SyntaxError), w1)
             | Some innerTubeData \<Rightarrow>
            (let innerTubeCaptions =
                   opt_get (opt_get innerTubeData ''captions'') ''playerCaptionsTracklistRenderer''
             in
             if \<not> (truthy innerTubeCaptions
                    \<and> truthy (opt_get innerTubeCaptions ''captionTracks''))
             then (Inr None, w1)
             else
            (case track_url config (opt_get innerTubeCaptions ''captionTracks'') of
               Inl err \<Rightarrow> (Inl err, w1)
             | Inr innerTubeTranscriptURL \<Rightarrow>
            (case fetch e (innertube_track_request identifier innerTubeTranscriptURL config) w1 of
               (None, w2) \<Rightarrow> (Inl (Uncaught FetchRejected), w2)
             | (Some innerTubeTranscriptResponse, w2) \<Rightarrow>
                 if \<not> resp_ok innerTubeTranscriptResponse then (Inr None, w2)
                 else
                   (case resp_text innerTubeTranscriptResponse of
                      None \<Rightarrow> (Inl (Uncaught FetchRejected), w2)
                    | Some innerTubeTranscriptBody \<Rightarrow>
                        if length innerTubeTranscriptBody > 0 then
                          (case segments e config innerTubeCaptions innerTubeTranscriptBody of
                             Inl err \<Rightarrow> (Inl err, w2)
                           | Inr results \<Rightarrow> (Inr (Some results), w2))
                        else (Inr None, w2))))))))"

text \<open>
  The \<open>try\<close> statement and the \<open>throw\<close> after it: what the block returns is returned,
  everything else ends in the error that no transcript is available.
\<close>

definition innertube_fallback ::
  "env \<Rightarrow> string \<Rightarrow> string \<Rightarrow> TranscriptConfig option \<Rightarrow> world
     \<Rightarrow> (error + TranscriptResponse list) \<times> world" where
  "innertube_fallback e videoId identifier config w =
     (case innertube_try e identifier config w of
        (Inr (Some results), w') \<Rightarrow> (Inr results, w')
      | (_, w') \<Rightarrow> (Inl (YoutubeTranscriptNotAvailableError videoId), w'))"

subsection \<open>The content of the chosen track\<close>

definition fetch_track ::
  "env \<Rightarrow> string \<Rightarrow> string \<Rightarrow> TranscriptConfig option \<Rightarrow> jsval \<Rightarrow> jsval \<Rightarrow> world
     \<Rightarrow> (error + TranscriptResponse list) \<times> world" where
  "fetch_track e videoId identifier config captions transcriptURL w =
     (case fetch e (track_request transcriptURL config) w of
        (None, w') \<Rightarrow> (Inl (Uncaught FetchRejected), w')
      | (Some transcriptResponse, w') \<Rightarrow>
          if \<not> resp_ok transcriptResponse
          then (Inl (YoutubeTranscriptNotAvailableError videoId), w')
          else
            (case resp_text transcriptResponse of
               None \<Rightarrow> (Inl (Uncaught FetchRejected), w')
             | Some transcriptBody \<Rightarrow>
                 if length transcriptBody = 0
                 then innertube_fallback e videoId identifier config w'
                 else (segments e config captions transcriptBody, w')))"

subsection \<open>The whole call\<close>

definition fetchTranscript ::
  "env \<Rightarrow> string \<Rightarrow> TranscriptConfig option \<Rightarrow> world
     \<Rightarrow> (error + TranscriptResponse list) \<times> world" where
  "fetchTranscript e videoId config w =
     (case retrieveVideoId videoId of
        Inl err \<Rightarrow> (Inl err, w)
      | Inr identifier \<Rightarrow>
          (case locate_captions e videoId identifier config w of
             (captions, w') \<Rightarrow>
               (case select_url videoId config captions of
                  Inl err \<Rightarrow> (Inl err, w')
                | Inr transcriptURL \<Rightarrow>
                    fetch_track e videoId identifier config captions transcriptURL w')))"

section \<open>The timed-text elements, as the specification words them\<close>

text \<open>
  The elements \<open><text start="S" dur="D">TEXT</text>\<close> of a body, read from left to
  right without the pattern engine: \<open>S\<close> and \<open>D\<close> run to the next double quote and
  \<open>TEXT\<close> to the next \<open><\<close>; after an element the scan goes on behind it, elsewhere one
  character further.
\<close>

definition strip_prefix :: "string \<Rightarrow> string \<Rightarrow> string option" where
  "strip_prefix pre s = (if starts_with pre s then Some (drop (length pre) s) else None)"

definition element_at :: "string \<Rightarrow> ((string \<times> string \<times> string) \<times> string) option" where
  \<open>element_at s =
     (case strip_prefix ''<text start="'' s of
        None \<Rightarrow> None
      | Some s1 \<Rightarrow>
     (case strip_prefix ''" dur="'' (dropWhile not_dquote s1) of
        None \<Rightarrow> None
      | Some s2 \<Rightarrow>
     (case strip_prefix ''">'' (dropWhile not_dquote s2) of
        None \<Rightarrow> None
      | Some s3 \<Rightarrow>
     (case strip_prefix ''</text>'' (dropWhile not_lt s3) of
        None \<Rightarrow> None
      | Some rest \<Rightarrow>
          Some ((takeWhile not_dquote s1, takeWhile not_dquote s2, takeWhile not_lt s3),
                rest)))))\<close>

function text_elements :: "string \<Rightarrow> (string \<times> string \<times> string) list" where
  "text_elements s =
     (case element_at s of
        Some (el, rest) \<Rightarrow> el # text_elements rest
      | None \<Rightarrow> (case s of [] \<Rightarrow> [] | _ # cs \<Rightarrow> text_elements cs))"
  by pat_completeness auto
termination
proof (relation "measure length")
  show "wf (measure length)" by simp
next
  fix s :: string and x2 x y
  assume h: "element_at s = Some x2" "(x, y) = x2"
  have sp: "length u + length pre = length t" if "strip_prefix pre t = Some u"
    for pre t u :: string
  proof -
    from that have "take (length pre) t = pre" and u: "u = drop (length pre) t"
      by (auto simp: strip_prefix_def starts_with_def split: if_splits)
    then have "length pre = min (length t) (length pre)"
      by (metis length_take)
    with u show ?thesis by simp
  qed
  have dw: "length (dropWhile p t) \<le> length t" for p and t :: string
    by (simp add: length_dropWhile_le)
  from h obtain s1 s2 s3 where
      1: \<open>strip_prefix ''<text start="'' s = Some s1\<close>
    and 2: \<open>strip_prefix ''" dur="'' (dropWhile not_dquote s1) = Some s2\<close>
    and 3: \<open>strip_prefix ''">'' (dropWhile not_dquote s2) = Some s3\<close>
    and 4: \<open>strip_prefix ''</text>'' (dropWhile not_lt s3) = Some y\<close>
    unfolding element_at_def by (auto split: option.splits)
  have "length y \<le> length s3"
    using sp [OF 4] dw [of not_lt s3] by simp
  also have "\<dots> \<le> length s2"
    using sp [OF 3] dw [of not_dquote s2] by simp
  also have "\<dots> \<le> length s1"
    using sp [OF 2] dw [of not_dquote s1] by simp
  also have "\<dots> < length s"
    using sp [OF 1] by simp
  finally show "(y, s) \<in> measure length" by simp
next
  fix s :: string and x21 x22
  assume "s = x21 # x22"
  then show "(x22, s) \<in> measure length" by simp
qed

declare text_elements.simps [simp del]

section \<open>The state of the module\<close>

text \<open>
  The module keeps two pattern objects for as long as it is loaded, \<open>RE_YOUTUBE\<close>
  and \<open>RE_XML_TRANSCRIPT\<close>; no other binding of the module outlives a call. A pattern
  object has the property \<open>lastIndex\<close>, which the engine reads and writes when the
  pattern has the flag \<open>g\<close>: it is what one call could leave behind for the next.
\<close>

record RegExp =
  re_source :: re
  re_global :: bool
  lastIndex :: nat

text \<open>
  The search of \<open>RegExpBuiltinExec\<close> from the index \<open>i\<close>: the start of the leftmost
  match at or after \<open>i\<close>, its captures and its end; no match starts behind the end of
  the string.
\<close>

function exec_from :: "re \<Rightarrow> string \<Rightarrow> nat \<Rightarrow> (nat \<times> string list \<times> nat) option" where
  "exec_from r s i =
     (if length s < i then None
      else (case rmatch r ([], drop i s) of
              (caps, rest) # _ \<Rightarrow> Some (i, caps, length s - length rest)
            | [] \<Rightarrow> exec_from r s (Suc i)))"
  by pat_completeness auto
termination
  by (relation "measure (\<lambda>(r, s, i). Suc (length s) - i)") auto

declare exec_from.simps [simp del]

text \<open>
  \<open>RegExpBuiltinExec\<close>: without the flag \<open>g\<close> the search starts at 0 and the object is
  left as it is; with it the search starts at \<open>lastIndex\<close>, which becomes the end of
  the match, or 0 when there is none. The result comes with the object as the call
  leaves it.
\<close>

definition RegExpBuiltinExec ::
  "RegExp \<Rightarrow> string \<Rightarrow> (nat \<times> string list \<times> nat) option \<times> RegExp" where
  "RegExpBuiltinExec R s =
     (case exec_from (re_source R) s (if re_global R then lastIndex R else 0) of
        None \<Rightarrow> (None, if re_global R then R\<lparr> lastIndex := 0 \<rparr> else R)
      | Some (start, caps, e) \<Rightarrow>
          (Some (start, caps, e), if re_global R then R\<lparr> lastIndex := e \<rparr> else R))"

text \<open>
  The iterator of \<open>matchAll\<close>: it calls \<open>exec\<close> on its own pattern object \<open>matcher\<close>
  until there is no match, moving \<open>lastIndex\<close> one further after an empty match;
  without the flag \<open>g\<close> it stops after the first match. With the flag \<open>g\<close> the new
  \<open>lastIndex\<close> is always behind the old one, which the test before the next round
  states.
\<close>

function matchAll_iterator :: "RegExp \<Rightarrow> string \<Rightarrow> string list list" where
  "matchAll_iterator matcher s =
     (case RegExpBuiltinExec matcher s of
        (None, _) \<Rightarrow> []
      | (Some (start, caps, e), advanced) \<Rightarrow>
          if \<not> re_global matcher then [caps]
          else
            caps #
              (let next = (if e = start then advanced\<lparr> lastIndex := Suc (lastIndex advanced) \<rparr>
                           else advanced)
               in if lastIndex matcher < lastIndex next then matchAll_iterator next s else []))"
  by pat_completeness auto
termination
proof (relation "measure (\<lambda>(R, s). Suc (length s) - lastIndex R)")
  show "wf (measure (\<lambda>(R, s). Suc (length s) - lastIndex R))" by simp
next
  fix matcher :: RegExp and s :: string and x y x2 start z caps e nxt
  assume x: "(x, y) = RegExpBuiltinExec matcher s"
    and "x = Some x2" and "(start, z) = x2" and "(caps, e) = z"
    and g: "\<not> \<not> re_global matcher"
    and n: "nxt = (if e = start then y\<lparr> lastIndex := Suc (lastIndex y) \<rparr> else y)"
    and lt: "lastIndex matcher < lastIndex nxt"
  then have "exec_from (re_source matcher) s (lastIndex matcher) \<noteq> None"
    by (auto simp: RegExpBuiltinExec_def split: option.splits)
  then have "lastIndex matcher \<le> length s"
    by (subst (asm) exec_from.simps) (auto split: if_splits)
  with lt show "((nxt, s), (matcher, s)) \<in> measure (\<lambda>(R, s). Suc (length s) - lastIndex R)"
    by simp
qed

declare matchAll_iterator.simps [simp del]

text \<open>
  \<open>s.matchAll(R)\<close>: the iterator works on a copy of \<open>R\<close> that starts with the
  \<open>lastIndex\<close> of \<open>R\<close>, so \<open>R\<close> itself is not written. (Without the flag \<open>g\<close> the
  call throws; the pattern of the module has it.)
\<close>

definition matchAll_js :: "RegExp \<Rightarrow> string \<Rightarrow> string list list \<times> RegExp" where
  "matchAll_js R s =
     (matchAll_iterator
        \<lparr> re_source = re_source R, re_global = re_global R, lastIndex = lastIndex R \<rparr> s,
      R)"

text \<open>The \<open>lastIndex\<close> of the two pattern objects of the module.\<close>

record module_state =
  RE_YOUTUBE_lastIndex :: nat
  RE_XML_TRANSCRIPT_lastIndex :: nat

definition initial_module :: module_state where
  "initial_module = \<lparr> RE_YOUTUBE_lastIndex = 0, RE_XML_TRANSCRIPT_lastIndex = 0 \<rparr>"

definition RE_YOUTUBE_object :: "module_state \<Rightarrow> RegExp" where
  "RE_YOUTUBE_object m =
     \<lparr> re_source = RE_YOUTUBE, re_global = False, lastIndex = RE_YOUTUBE_lastIndex m \<rparr>"

definition RE_XML_TRANSCRIPT_object :: "module_state \<Rightarrow> RegExp" where
  "RE_XML_TRANSCRIPT_object m =
     \<lparr> re_source = RE_XML_TRANSCRIPT, re_global = True,
       lastIndex = RE_XML_TRANSCRIPT_lastIndex m \<rparr>"

subsection \<open>The call in the state of the module\<close>

text \<open>
  The functions of the call that use a pattern object of the module, with the state
  of the module passed in and returned: \<open>videoId.match(RE_YOUTUBE)\<close> is \<open>exec\<close> on a
  pattern without the flag \<open>g\<close>, and both uses of \<open>RE_XML_TRANSCRIPT\<close> are \<open>matchAll\<close>.
  The pattern of \<open>parse_captions\<close> is a literal inside the function, a new object at
  each evaluation.
\<close>

definition retrieveVideoId_m :: "string \<Rightarrow> module_state \<Rightarrow> (error + string) \<times> module_state" where
  "retrieveVideoId_m videoId m =
     (if length videoId = 11 then (Inr videoId, m)
      else (case RegExpBuiltinExec (RE_YOUTUBE_object m) videoId of
              (Some (_, caps, _), R) \<Rightarrow>
                (Inr (capture caps 1), m\<lparr> RE_YOUTUBE_lastIndex := lastIndex R \<rparr>)
            | (None, R) \<Rightarrow>
                (Inl (YoutubeTranscriptError ''Impossible to retrieve Youtube video ID.''),
                 m\<lparr> RE_YOUTUBE_lastIndex := lastIndex R \<rparr>)))"

definition segments_m ::
  "env \<Rightarrow> TranscriptConfig option \<Rightarrow> jsval \<Rightarrow> string \<Rightarrow> module_state
     \<Rightarrow> (error + TranscriptResponse list) \<times> module_state" where
  "segments_m e config captions transcriptBody m =
     (case matchAll_js (RE_XML_TRANSCRIPT_object m) transcriptBody of
        (results, R) \<Rightarrow>
          (map_list
             (\<lambda>result.
                (case segment_lang config captions of
                   Inl err \<Rightarrow> Inl err
                 | Inr l \<Rightarrow>
                     Inr \<lparr> text_of = capture result 3,
                           duration = parseFloat e (capture result 2),
                           offset = parseFloat e (capture result 1),
                           lang_of = l \<rparr>))
             results,
           m\<lparr> RE_XML_TRANSCRIPT_lastIndex := lastIndex R \<rparr>))"

definition innertube_try_m ::
  "env \<Rightarrow> string \<Rightarrow> TranscriptConfig option \<Rightarrow> module_state \<Rightarrow> world
     \<Rightarrow> (error + TranscriptResponse list option) \<times> module_state \<times> world" where
  "innertube_try_m e identifier config m w =
     (case fetch e (innertube_request e identifier) w of
        (None, w1) \<Rightarrow> (Inl (Uncaught FetchRejected), m, w1)
      | (Some InnerTubeApiResponse, w1) \<Rightarrow>
          if \<not> resp_ok InnerTubeApiResponse then (Inr None, m, w1)
          else
            (case resp_text InnerTubeApiResponse of
               None \<Rightarrow> (Inl (Uncaught FetchRejected), m, w1)
             | Some t \<Rightarrow>
            (case JSON_parse e t of
               None \<Rightarrow> (Inl (Uncaught SyntaxError), m, w1)
             | Some innerTubeData \<Rightarrow>
            (let innerTubeCaptions =
                   opt_get (opt_get innerTubeData ''captions'') ''playerCaptionsTracklistRenderer''
             in
             if \<not> (truthy innerTubeCaptions
                    \<and> truthy (opt_get innerTubeCaptions ''captionTracks''))
             then (Inr None, m, w1)
             else
            (case track_url config (opt_get innerTubeCaptions ''captionTracks'') of
               Inl err \<Rightarrow> (Inl err, m, w1)
             | Inr innerTubeTranscriptURL \<Rightarrow>
            (case fetch e (innertube_track_request identifier innerTubeTranscriptURL config) w1 of
               (None, w2) \<Rightarrow> (Inl (Uncaught FetchRejected), m, w2)
             | (Some innerTubeTranscriptResponse, w2) \<Rightarrow>
                 if \<not> resp_ok innerTubeTranscriptResponse then (Inr None, m, w2)
                 else
                   (case resp_text innerTubeTranscriptResponse of
                      None \<Rightarrow> (Inl (Uncaught FetchRejected), m, w2)
                    | Some innerTubeTranscriptBody \<Rightarrow>
                        if length innerTubeTranscriptBody > 0 then
                          (case segments_m e config innerTubeCaptions innerTubeTranscriptBody m of
                             (Inl err, m') \<Rightarrow> (Inl err, m', w2)
                           | (Inr results, m') \<Rightarrow> (Inr (Some results), m', w2))
                        else (Inr None, m, w2))))))))"

definition innertube_fallback_m ::
  "env \<Rightarrow> string \<Rightarrow> string \<Rightarrow> TranscriptConfig option \<Rightarrow> module_state \<Rightarrow> world
     \<Rightarrow> (error + TranscriptResponse list) \<times> module_state \<times> world" where
  "innertube_fallback_m e videoId identifier config m w =
     (case innertube_try_m e identifier config m w of
        (Inr (Some results), m', w') \<Rightarrow> (Inr results, m', w')
      | (_, m', w') \<Rightarrow> (Inl (YoutubeTranscriptNotAvailableError videoId), m', w'))"

definition fetch_track_m ::
  "env \<Rightarrow> string \<Rightarrow> string \<Rightarrow> TranscriptConfig option \<Rightarrow> jsval \<Rightarrow> jsval
     \<Rightarrow> module_state \<Rightarrow> world
     \<Rightarrow> (error + TranscriptResponse list) \<times> module_state \<times> world" where
  "fetch_track_m e videoId identifier config captions transcriptURL m w =
     (case fetch e (track_request transcriptURL config) w of
        (None, w') \<Rightarrow> (Inl (Uncaught FetchRejected), m, w')
      | (Some transcriptResponse, w') \<Rightarrow>
          if \<not> resp_ok transcriptResponse
          then (Inl (YoutubeTranscriptNotAvailableError videoId), m, w')
          else
            (case resp_text transcriptResponse of
               None \<Rightarrow> (Inl (Uncaught FetchRejected), m, w')
             | Some transcriptBody \<Rightarrow>
                 if length transcriptBody = 0
                 then innertube_fallback_m e videoId identifier config m w'
                 else (case segments_m e config captions transcriptBody m of
                         (r, m') \<Rightarrow> (r, m', w'))))"

definition fetchTranscript_m ::
  "env \<Rightarrow> string \<Rightarrow> TranscriptConfig option \<Rightarrow> module_state \<Rightarrow> world
     \<Rightarrow> (error + TranscriptResponse list) \<times> module_state \<times> world" where
  "fetchTranscript_m e videoId config m w =
     (case retrieveVideoId_m videoId m of
        (Inl err, m1) \<Rightarrow> (Inl err, m1, w)
      | (Inr identifier, m1) \<Rightarrow>
          (case locate_captions e videoId identifier config w of
             (captions, w') \<Rightarrow>
               (case select_url videoId config captions of
                  Inl err \<Rightarrow> (Inl err, m1, w')
                | Inr transcriptURL \<Rightarrow>
                    fetch_track_m e videoId identifier config captions transcriptURL m1 w')))"

section \<open>Example runs\<close>

text \<open>A platform given by tables: the responses by method and address, the JSON texts
  with their values, the numerals with their values.\<close>

definition table_env ::
  "((http_method \<times> jsval) \<times> response) list \<Rightarrow> (string \<times> jsval) list
     \<Rightarrow> (jsval \<times> string) list \<Rightarrow> (string \<times> number) list \<Rightarrow> env" where
  "table_env responses json texts floats =
     \<lparr> net = (\<lambda>req. map_of responses (req_method req, url req)),
       JSON_parse = map_of json,
       JSON_stringify = (\<lambda>v. case map_of texts v of Some t \<Rightarrow> t | None \<Rightarrow> []),
       parseFloat = (\<lambda>s. case map_of floats s of Some n \<Rightarrow> n | None \<Rightarrow> NaN) \<rparr>"

definition ok_response :: "string \<Rightarrow> response" where
  "ok_response t = \<lparr> resp_ok = True, resp_text = Some t \<rparr>"

definition refusing_player :: response where
  "refusing_player = \<lparr> resp_ok = False, resp_text = Some [] \<rparr>"

definition watch_page :: "string \<Rightarrow> ((http_method \<times> jsval) \<times> response)" where
  "watch_page t = ((GET, JStr ''https://www.youtube.com/watch?v=dQw4w9WgXcQ''), ok_response t)"

text \<open>A page that shows a captcha and has no captions.\<close>

definition captcha_page :: string where
  \<open>captcha_page = ''<html><form class="g-recaptcha"></form></html>''\<close>

definition captcha_env :: env where
  "captcha_env = table_env [watch_page captcha_page] [] [] []"

text \<open>A page whose catalog has an empty list of tracks.\<close>

definition no_tracks_json :: string where
  \<open>no_tracks_json = ''{"playerCaptionsTracklistRenderer":{"captionTracks":[]}}''\<close>

definition no_tracks_page :: string where
  \<open>no_tracks_page = ''<html>"captions":'' @ no_tracks_json @ '',"videoDetails":{}</html>''\<close>

definition no_tracks_env :: env where
  "no_tracks_env =
     table_env [watch_page no_tracks_page]
       [(no_tracks_json,
         JObj [(''playerCaptionsTracklistRenderer'', JObj [(''captionTracks'', JArr [])])])]
       [] []"

text \<open>A catalog with an English and a French track.\<close>

definition en_track :: jsval where
  "en_track = JObj [(''baseUrl'', JStr ''https://t/en''), (''languageCode'', JStr ''en'')]"

definition fr_track :: jsval where
  "fr_track = JObj [(''baseUrl'', JStr ''https://t/fr''), (''languageCode'', JStr ''fr'')]"

definition en_fr_catalog :: jsval where
  "en_fr_catalog = JObj [(''captionTracks'', JArr [en_track, fr_track])]"

definition en_fr_json :: string where
  \<open>en_fr_json = ''{"playerCaptionsTracklistRenderer":{"captionTracks":[{"baseUrl":"https://t/en","languageCode":"en"},{"baseUrl":"https://t/fr","languageCode":"fr"}]}}''\<close>

definition en_fr_page :: string where
  \<open>en_fr_page = ''<html>"captions":'' @ en_fr_json @ '',"videoDetails":{}</html>''\<close>

text \<open>The answer of the player endpoint: a catalog with one track at another address.\<close>

definition player_json :: string where
  \<open>player_json = ''{"captions":{"playerCaptionsTracklistRenderer":{"captionTracks":[{"baseUrl":"https://t/2","languageCode":"en"}]}}}''\<close>

definition player_data :: jsval where
  "player_data =
     JObj [(''captions'',
       JObj [(''playerCaptionsTracklistRenderer'',
         JObj [(''captionTracks'',
           JArr [JObj [(''baseUrl'', JStr ''https://t/2''), (''languageCode'', JStr ''en'')]])])])]"

definition player_text :: string where
  \<open>player_text = ''{"context":{"client":{"clientName":"WEB","clientVersion":"2.20241211.01.00"}},"videoId":"dQw4w9WgXcQ"}''\<close>

definition two_cues :: string where
  \<open>two_cues = ''<text start="1.0" dur="2.5">Hello</text><text start="3.5" dur="1.0">World</text>''\<close>

text \<open>
  A run in which the English track of the page is empty: the player endpoint answers
  with \<open>player\<close>, and the track of its catalog has the content \<open>second\<close>.
\<close>

definition fallback_env :: "response \<Rightarrow> string \<Rightarrow> env" where
  "fallback_env player second =
     table_env
       [watch_page en_fr_page,
        ((GET, JStr ''https://t/en''), ok_response []),
        ((POST, JStr ''https://www.youtube.com/youtubei/v1/player''), player),
        ((GET, JStr ''https://t/2''), ok_response second)]
       [(en_fr_json, JObj [(''playerCaptionsTracklistRenderer'', en_fr_catalog)]),
        (player_json, player_data)]
       [(innertube_body ''dQw4w9WgXcQ'', player_text)]
       [(''1.0'', Finite 1 0), (''2.5'', Finite 5 (- 1)), (''3.5'', Finite 7 (- 1))]"

section \<open>The pattern of the timed text and the scan of the specification\<close>

lemma rmatch_lit:
  "rmatch (lit p) (caps, s) =
     (case strip_prefix p s of Some t \<Rightarrow> [(caps, t)] | None \<Rightarrow> [])"
proof (induction p arbitrary: s)
  case Nil
  show ?case by (simp add: starts_with_def strip_prefix_def)
next
  case (Cons c p)
  show ?case
  proof (cases s)
    case Nil
    then show ?thesis by (simp add: starts_with_def strip_prefix_def)
  next
    case (Cons d t)
    then show ?thesis using Cons.IH [of t] by (auto simp: starts_with_def strip_prefix_def)
  qed
qed

lemma rmatch_Seq_lit:
  "rmatch (Seq (lit p) r) (caps, s) =
     (case strip_prefix p s of Some t \<Rightarrow> rmatch r (caps, t) | None \<Rightarrow> [])"
  by (simp add: rmatch_lit split: option.split)

lemma star_then:
  assumes "\<And>cs c t. p c \<Longrightarrow> rmatch k (cs, c # t) = []"
  shows "concat (map (rmatch k) (map (\<lambda>s'. (f s', s')) (star p s)))
           = rmatch k (f (dropWhile p s), dropWhile p s)"
  by (induction s) (simp_all add: assms)

lemma take_dropWhile_length:
  "take (length s - length (dropWhile p s)) s = takeWhile p s"
  by (induction s) (simp_all add: Suc_diff_le length_dropWhile_le)

lemma rmatch_Group_Star:
  assumes "\<And>cs c t. p c \<Longrightarrow> rmatch k (cs, c # t) = []"
  shows "rmatch (Seq (Group (Star p)) k) (caps, s)
           = rmatch k (caps @ [takeWhile p s], dropWhile p s)"
proof -
  have "rmatch (Seq (Group (Star p)) k) (caps, s)
          = concat (map (rmatch k)
              (map (\<lambda>s'. (caps @ [take (length s - length s') s], s')) (star p s)))"
    by (simp add: comp_def)
  also have "\<dots> = rmatch k (caps @ [take (length s - length (dropWhile p s)) s], dropWhile p s)"
    by (rule star_then) (rule assms)
  finally show ?thesis by (simp add: take_dropWhile_length)
qed

lemma rmatch_RE_XML_TRANSCRIPT:
  "rmatch RE_XML_TRANSCRIPT ([], s) =
     (case element_at s of
        Some ((S, D, T), rest) \<Rightarrow> [([S, D, T], rest)]
      | None \<Rightarrow> [])"
proof -
  have q: "rmatch (Seq (Group (Star not_dquote)) (Seq (lit (CHR 0x22 # ds)) r)) (caps, t)
             = rmatch (Seq (lit (CHR 0x22 # ds)) r)
                 (caps @ [takeWhile not_dquote t], dropWhile not_dquote t)"
    for ds r caps t
    by (rule rmatch_Group_Star) (simp add: not_dquote_def dquote_def)
  have l: "rmatch (Seq (Group (Star not_lt)) (lit (CHR ''<'' # ds))) (caps, t)
             = rmatch (lit (CHR ''<'' # ds))
                 (caps @ [takeWhile not_lt t], dropWhile not_lt t)"
    for ds caps t
    by (rule rmatch_Group_Star) (simp add: not_lt_def)
  show ?thesis
    unfolding RE_XML_TRANSCRIPT_def element_at_def
    by (simp only: rmatch_Seq_lit q l rmatch_lit)
       (auto split: option.splits)
qed

lemma element_at_shorter:
  "element_at s = Some (el, rest) \<Longrightarrow> length rest < length s"
proof -
  assume h: "element_at s = Some (el, rest)"
  have sp: "length u + length pre = length t" if "strip_prefix pre t = Some u"
    for pre t u :: string
  proof -
    from that have "take (length pre) t = pre" and u: "u = drop (length pre) t"
      by (auto simp: strip_prefix_def starts_with_def split: if_splits)
    then have "length pre = min (length t) (length pre)"
      by (metis length_take)
    with u show ?thesis by simp
  qed
  have dw: "length (dropWhile p t) \<le> length t" for p and t :: string
    by (simp add: length_dropWhile_le)
  from h obtain s1 s2 s3 where
      1: \<open>strip_prefix ''<text start="'' s = Some s1\<close>
    and 2: \<open>strip_prefix ''" dur="'' (dropWhile not_dquote s1) = Some s2\<close>
    and 3: \<open>strip_prefix ''">'' (dropWhile not_dquote s2) = Some s3\<close>
    and 4: \<open>strip_prefix ''</text>'' (dropWhile not_lt s3) = Some rest\<close>
    unfolding element_at_def by (auto split: option.splits)
  have "length rest \<le> length s3"
    using sp [OF 4] dw [of not_lt s3] by simp
  also have "\<dots> \<le> length s2"
    using sp [OF 3] dw [of not_dquote s2] by simp
  also have "\<dots> \<le> length s1"
    using sp [OF 2] dw [of not_dquote s1] by simp
  also have "\<dots> < length s"
    using sp [OF 1] by simp
  finally show ?thesis .
qed

lemma matchAll_RE_XML_TRANSCRIPT:
  "matchAll RE_XML_TRANSCRIPT s = map (\<lambda>(S, D, T). [S, D, T]) (text_elements s)"
proof (induction s rule: text_elements.induct)
  case (1 s)
  show ?case
  proof (cases "element_at s")
    case None
    then show ?thesis
      using 1(1) [OF None]
      by (subst matchAll.simps, subst text_elements.simps)
         (auto simp: rmatch_RE_XML_TRANSCRIPT split: list.split)
  next
    case (Some a)
    then obtain S D T rest where a: "a = ((S, D, T), rest)" by (cases a) auto
    with Some have "length rest < length s" by (simp add: element_at_shorter)
    then show ?thesis
      using 1(2) [OF Some, of "(S, D, T)" rest] Some a
      by (subst matchAll.simps, subst text_elements.simps)
         (simp add: rmatch_RE_XML_TRANSCRIPT)
  qed
qed


section \<open>The pattern of the addresses\<close>

lemma ascii_upper_Y: "ascii_upper c = CHR ''Y'' \<longleftrightarrow> c = CHR ''y'' \<or> c = CHR ''Y''"
  by (auto simp: ascii_upper_def split: if_splits)

lemma ascii_upper_V: "ascii_upper c = CHR ''V'' \<longleftrightarrow> c = CHR ''v'' \<or> c = CHR ''V''"
  by (auto simp: ascii_upper_def split: if_splits)

lemma ascii_upper_query:
  "ascii_upper c = CHR ''?'' \<longleftrightarrow> c = CHR ''?''"
  "ascii_upper c = CHR ''&'' \<longleftrightarrow> c = CHR ''&''"
  "ascii_upper c = CHR ''='' \<longleftrightarrow> c = CHR ''=''"
  by (auto simp: ascii_upper_def split: if_splits)

lemma ascii_upper_chars:
  "ascii_upper CHR ''y'' = CHR ''Y''"
  "ascii_upper CHR ''o'' = CHR ''O''"
  "ascii_upper CHR ''u'' = CHR ''U''"
  "ascii_upper CHR ''t'' = CHR ''T''"
  "ascii_upper CHR ''b'' = CHR ''B''"
  "ascii_upper CHR ''e'' = CHR ''E''"
  "ascii_upper CHR ''.'' = CHR ''.''"
  "ascii_upper CHR ''c'' = CHR ''C''"
  "ascii_upper CHR ''m'' = CHR ''M''"
  "ascii_upper CHR ''/'' = CHR ''/''"
  "ascii_upper CHR ''v'' = CHR ''V''"
  "ascii_upper CHR ''w'' = CHR ''W''"
  "ascii_upper CHR ''a'' = CHR ''A''"
  "ascii_upper CHR ''h'' = CHR ''H''"
  "ascii_upper CHR ''?'' = CHR ''?''"
  "ascii_upper CHR ''='' = CHR ''=''"
  "ascii_upper CHR ''d'' = CHR ''D''"
  "ascii_upper CHR ''&'' = CHR ''&''"
  by (simp_all add: ascii_upper_def)

lemma starts_with_Cons:
  "starts_with [] s = True"
  "starts_with (a # p) [] = False"
  "starts_with (a # p) (b # s) = (b = a \<and> starts_with p s)"
  by (auto simp: starts_with_def)

lemma concat_map_concat:
  "concat (map f (concat (map g xs))) = concat (map (\<lambda>x. concat (map f (g x))) xs)"
  by (induction xs) simp_all

lemma rmatch_Seq_assoc:
  "rmatch (Seq (Seq a b) k) st = rmatch (Seq a (Seq b k)) st"
proof -
  have "rmatch (Seq b k) = (\<lambda>x. concat (map (rmatch k) (rmatch b x)))"
    by (rule ext) simp
  then show ?thesis
    by (simp add: concat_map_concat)
qed

lemma rmatch_Alt_Seq:
  "rmatch (Seq (Alt a b) k) st = rmatch (Seq a k) st @ rmatch (Seq b k) st"
  by simp

lemma rmatch_Eps_Seq:
  "rmatch (Seq Eps k) st = rmatch k st"
  by simp

lemma rmatch_Atom_Seq:
  "rmatch (Seq (Atom p) k) (caps, c # t) = (if p c then rmatch k (caps, t) else [])"
  "rmatch (Seq (Atom p) k) (caps, []) = []"
  by simp_all

lemma rmatch_Star_Seq:
  "rmatch (Seq (Star p) k) (caps, c # t) =
     (if p c then rmatch (Seq (Star p) k) (caps, t) else []) @ rmatch k (caps, c # t)"
  "rmatch (Seq (Star p) k) (caps, []) = rmatch k (caps, [])"
  by simp_all

lemma rmatch_rep_Atom:
  "length v = n \<Longrightarrow> list_all p v \<Longrightarrow> rmatch (rep n (Atom p)) (caps, v @ rest) = [(caps, rest)]"
  by (induction v arbitrary: n) auto

lemma rmatch_RE_ID:
  "length v = 11 \<Longrightarrow> list_all idchar v \<Longrightarrow> rmatch RE_ID (caps, v @ rest) = [(caps @ [v], rest)]"
  by (simp add: RE_ID_def rmatch_rep_Atom)

lemma rmatch_lit_i_Seq:
  "rmatch (Seq (lit_i p) k) (caps, s) =
     (if starts_with (map ascii_upper p) (map ascii_upper s)
      then rmatch k (caps, drop (length p) s) else [])"
proof (induction p arbitrary: s)
  case Nil
  show ?case by (simp add: starts_with_def)
next
  case (Cons c p)
  have "rmatch (Seq (lit_i (c # p)) k) (caps, s) =
          rmatch (Seq (Atom (\<lambda>x. ascii_upper x = ascii_upper c)) (Seq (lit_i p) k)) (caps, s)"
    by (simp only: lit_i.simps rmatch_Seq_assoc)
  also have "\<dots> = (if starts_with (map ascii_upper (c # p)) (map ascii_upper s)
      then rmatch k (caps, drop (length (c # p)) s) else [])"
    using Cons.IH by (cases s) (auto simp: rmatch_Atom_Seq starts_with_def simp del: rmatch.simps)
  finally show ?case .
qed

lemma star_no_match:
  "\<forall>x \<in> set u. \<not> q x \<Longrightarrow> rmatch (Seq (Star p) (Seq (Atom q) k)) (caps, u) = []"
  by (induction u) (simp_all add: rmatch_Star_Seq rmatch_Atom_Seq del: rmatch.simps)

lemma rmatch_RE_YOUTUBE:
  "rmatch RE_YOUTUBE st =
     rmatch (Seq (lit_i ''youtube.com/'') (Seq RE_PATH RE_ID)) st
     @ rmatch (Seq (lit_i ''youtube.com/'') (Seq RE_EMBED RE_ID)) st
     @ rmatch (Seq (lit_i ''youtube.com/'') (Seq RE_QUERY RE_ID)) st
     @ rmatch (Seq (lit_i ''youtu.be/'') RE_ID) st"
proof -
  obtain caps s where st: "st = (caps, s)" by force
  show ?thesis
    unfolding RE_YOUTUBE_def st
    by (simp only: rmatch_Alt_Seq rmatch_Seq_assoc rmatch_lit_i_Seq append_assoc split: if_splits)
       simp
qed

lemma rmatch_RE_YOUTUBE_other:
  "c \<noteq> CHR ''y'' \<Longrightarrow> c \<noteq> CHR ''Y'' \<Longrightarrow> rmatch RE_YOUTUBE (caps, c # t) = []"
  by (simp add: rmatch_RE_YOUTUBE rmatch_lit_i_Seq starts_with_Cons ascii_upper_chars
        ascii_upper_Y del: rmatch.simps lit_i.simps)

lemma search_skip:
  "\<forall>c \<in> set pre. c \<noteq> CHR ''y'' \<and> c \<noteq> CHR ''Y'' \<Longrightarrow>
     search RE_YOUTUBE (pre @ s) = search RE_YOUTUBE s"
proof (induction pre)
  case Nil
  show ?case by simp
next
  case (Cons c pre)
  then show ?case
    by (subst search.simps) (simp add: rmatch_RE_YOUTUBE_other)
qed

lemma retrieveVideoId_found:
  assumes "\<forall>c \<in> set pre. c \<noteq> CHR ''y'' \<and> c \<noteq> CHR ''Y''"
    and "rmatch RE_YOUTUBE ([], s) = ([v], rest) # ys"
    and "length (pre @ s) \<noteq> 11"
  shows "retrieveVideoId (pre @ s) = Inr v"
proof -
  have "search RE_YOUTUBE (pre @ s) = Some ([v], rest)"
    using assms(1,2) by (simp add: search_skip) (simp add: search.simps)
  with assms(3) show ?thesis
    by (simp add: retrieveVideoId_def capture_def)
qed

lemmas re_norm =
  rmatch_Seq_assoc rmatch_Alt_Seq rmatch_Eps_Seq rmatch_Atom_Seq rmatch_Star_Seq
  rmatch_lit_i_Seq starts_with_Cons ascii_upper_chars

lemma idchar_simps:
  "idchar c \<Longrightarrow> c \<noteq> CHR ''/''"
  "idchar c \<Longrightarrow> \<not> query_sep c"
  "idchar c \<Longrightarrow> dot c"
  by (auto simp: idchar_def query_sep_def dot_def is_space_def)

lemma idchar_no_slash: "list_all idchar v \<Longrightarrow> CHR ''/'' \<notin> set v"
  by (auto simp: list_all_iff dest: idchar_simps(1))

lemma rmatch_Seq_fun:
  "rmatch (Seq a k) = (\<lambda>st. concat (map (rmatch k) (rmatch a st)))"
  by (rule ext) simp

lemma rmatch_RE_PATH_Seq:
  "rmatch (Seq RE_PATH k) st =
     rmatch (Seq (Atom not_slash) (Seq (Star not_slash) (Seq (Atom slash)
            (Seq (Atom dot) (Seq (Star dot) (Seq (Atom slash) k)))))) st"
  unfolding RE_PATH_def plus_def
  by (simp add: rmatch_Seq_fun concat_map_concat del: rmatch.simps)

lemma rmatch_RE_QUERY_Seq:
  "rmatch (Seq RE_QUERY k) st =
     rmatch (Seq (Star dot) (Seq (Atom query_sep) (Seq (lit_i ''v='') k))) st"
  unfolding RE_QUERY_def
  by (simp add: rmatch_Seq_fun concat_map_concat del: rmatch.simps lit_i.simps)

lemma star_no_slash:
  "CHR ''/'' \<notin> set u \<Longrightarrow> rmatch (Seq (Star p) (Seq (Atom slash) k)) (caps, u) = []"
  by (rule star_no_match) (auto simp: slash_def)

lemma path_none:
  "CHR ''/'' \<notin> set u \<Longrightarrow>
     rmatch (Seq (Atom dot) (Seq (Star dot) (Seq (Atom slash) k))) (caps, u) = []"
  by (cases u) (auto simp: rmatch_Atom_Seq star_no_slash simp del: rmatch.simps)

lemma youtu_be_shape:
  assumes "length v = 11" and "list_all idchar v"
  shows "rmatch RE_YOUTUBE ([], ''youtu.be/'' @ v @ rest) = [([v], rest)]"
  using assms
  by (simp add: rmatch_RE_YOUTUBE re_norm rmatch_RE_ID del: rmatch.simps lit_i.simps)

lemma embed_shapes:
  assumes "length v = 11" and "list_all idchar v" and "CHR ''/'' \<notin> set rest"
  shows "\<exists>ys. rmatch RE_YOUTUBE ([], ''youtube.com/embed/'' @ v @ rest) = ([v], rest) # ys"
    and "\<exists>ys. rmatch RE_YOUTUBE ([], ''youtube.com/v/'' @ v @ rest) = ([v], rest) # ys"
    and "\<exists>ys. rmatch RE_YOUTUBE ([], ''youtube.com/e/'' @ v @ rest) = ([v], rest) # ys"
proof -
  have n: "CHR ''/'' \<notin> set (v @ rest)"
    using assms(2,3) by (simp add: idchar_no_slash)
  have p: "rmatch (Seq (lit_i ''youtube.com/'') (Seq RE_PATH RE_ID)) ([], ''youtube.com/'' @ m @ v @ rest) = []"
    if "m \<in> {''embed/'', ''v/'', ''e/''}" for m
    using that path_none [OF n]
    by (auto simp: rmatch_RE_PATH_Seq re_norm not_slash_def slash_def
          simp del: rmatch.simps lit_i.simps)
  have e: "rmatch (Seq (lit_i ''youtube.com/'') (Seq RE_EMBED RE_ID)) ([], ''youtube.com/'' @ m @ v @ rest)
             = [([v], rest)]"
    if "m \<in> {''embed/'', ''v/'', ''e/''}" for m
    using that assms(1,2)
    by (auto simp: RE_EMBED_def opt_def re_norm slash_def rmatch_RE_ID
          simp del: rmatch.simps lit_i.simps)
  show "\<exists>ys. rmatch RE_YOUTUBE ([], ''youtube.com/embed/'' @ v @ rest) = ([v], rest) # ys"
    using p [of "''embed/''"] e [of "''embed/''"] by (simp add: rmatch_RE_YOUTUBE del: rmatch.simps lit_i.simps)
  show "\<exists>ys. rmatch RE_YOUTUBE ([], ''youtube.com/v/'' @ v @ rest) = ([v], rest) # ys"
    using p [of "''v/''"] e [of "''v/''"] by (simp add: rmatch_RE_YOUTUBE del: rmatch.simps lit_i.simps)
  show "\<exists>ys. rmatch RE_YOUTUBE ([], ''youtube.com/e/'' @ v @ rest) = ([v], rest) # ys"
    using p [of "''e/''"] e [of "''e/''"] by (simp add: rmatch_RE_YOUTUBE del: rmatch.simps lit_i.simps)
qed

lemma query_rest:
  assumes "\<not> includes_js ''?V='' (map ascii_upper rest)"
    and "\<not> includes_js ''&V='' (map ascii_upper rest)"
  shows "rmatch (Seq (Star dot) (Seq (Atom query_sep) (Seq (lit_i ''v='') k))) (caps, rest) = []"
  using assms
  by (induction rest)
     (auto simp: re_norm query_sep_def ascii_upper_query simp del: rmatch.simps lit_i.simps)

lemma query_id:
  assumes "list_all idchar v"
    and "\<not> includes_js ''?V='' (map ascii_upper rest)"
    and "\<not> includes_js ''&V='' (map ascii_upper rest)"
  shows "rmatch (Seq (Star dot) (Seq (Atom query_sep) (Seq (lit_i ''v='') k))) (caps, v @ rest) = []"
  using assms
  by (induction v)
     (auto simp: query_rest rmatch_Star_Seq rmatch_Atom_Seq idchar_simps
           simp del: rmatch.simps lit_i.simps)

lemma watch_shape:
  assumes "length v = 11" and "list_all idchar v" and "CHR ''/'' \<notin> set rest"
    and "\<not> includes_js ''?V='' (map ascii_upper rest)"
    and "\<not> includes_js ''&V='' (map ascii_upper rest)"
  shows "rmatch RE_YOUTUBE ([], ''youtube.com/watch?v='' @ v @ rest) = [([v], rest)]"
proof -
  have n: "CHR ''/'' \<notin> set (v @ rest)"
    using assms(2,3) by (simp add: idchar_no_slash)
  have p: "rmatch (Seq (lit_i ''youtube.com/'') (Seq RE_PATH RE_ID))
             ([], ''youtube.com/watch?v='' @ v @ rest) = []"
    using star_no_slash [OF n]
    by (simp add: rmatch_RE_PATH_Seq re_norm not_slash_def slash_def
          del: rmatch.simps lit_i.simps)
  have e: "rmatch (Seq (lit_i ''youtube.com/'') (Seq RE_EMBED RE_ID))
             ([], ''youtube.com/watch?v='' @ v @ rest) = []"
    by (simp add: RE_EMBED_def opt_def re_norm slash_def del: rmatch.simps lit_i.simps)
  have q: "rmatch (Seq (lit_i ''youtube.com/'') (Seq RE_QUERY RE_ID))
             ([], ''youtube.com/watch?v='' @ v @ rest) = [([v], rest)]"
    using assms(1,2) query_id [OF assms(2,4,5)]
    by (simp add: rmatch_RE_QUERY_Seq re_norm query_sep_def dot_def rmatch_RE_ID
          del: rmatch.simps lit_i.simps)
  have b: "rmatch (Seq (lit_i ''youtu.be/'') RE_ID) ([], ''youtube.com/watch?v='' @ v @ rest) = []"
    by (simp add: re_norm del: rmatch.simps lit_i.simps)
  show ?thesis
    by (simp only: rmatch_RE_YOUTUBE p e q b) simp
qed

lemma search_no_marker:
  assumes "\<not> includes_js ''YOUTUBE.COM/'' (map ascii_upper s)"
    and "\<not> includes_js ''YOUTU.BE/'' (map ascii_upper s)"
  shows "search RE_YOUTUBE s = None"
  using assms
proof (induction s)
  case Nil
  show ?case
    by (subst search.simps)
       (simp add: rmatch_RE_YOUTUBE rmatch_lit_i_Seq starts_with_Cons ascii_upper_chars
          del: rmatch.simps lit_i.simps)
next
  case (Cons c s)
  then show ?case
    by (subst search.simps)
       (simp add: rmatch_RE_YOUTUBE rmatch_lit_i_Seq ascii_upper_chars
          del: rmatch.simps lit_i.simps)
qed

text \<open>
  Where the remainder of the address leaves nothing to the alternative for a path,
  the pattern finds the identifier that follows the marker: after a prefix without
  the letter \<open>y\<close>, behind \<open>youtu.be/\<close> with any remainder, behind
  \<open>youtube.com/embed/\<close>, \<open>youtube.com/v/\<close> and \<open>youtube.com/e/\<close> with a remainder
  without \<open>/\<close>, and behind \<open>youtube.com/watch?v=\<close> with a remainder without \<open>/\<close>
  and without a further parameter \<open>v=\<close>. An input of 11 characters is returned as
  it is.
\<close>

lemma retrieveVideoId_plain_shapes:
  assumes "\<forall>c \<in> set pre. c \<noteq> CHR ''y'' \<and> c \<noteq> CHR ''Y''"
    and "length v = 11" and "list_all idchar v"
  shows
  "(length videoId = 11 \<longrightarrow> retrieveVideoId videoId = Inr videoId)
   \<and> retrieveVideoId (pre @ ''youtu.be/'' @ v @ rest) = Inr v
   \<and> (CHR ''/'' \<notin> set rest \<longrightarrow>
        retrieveVideoId (pre @ ''youtube.com/embed/'' @ v @ rest) = Inr v
        \<and> retrieveVideoId (pre @ ''youtube.com/v/'' @ v @ rest) = Inr v
        \<and> retrieveVideoId (pre @ ''youtube.com/e/'' @ v @ rest) = Inr v)
   \<and> (CHR ''/'' \<notin> set rest
        \<and> \<not> includes_js ''?V='' (map ascii_upper rest)
        \<and> \<not> includes_js ''&V='' (map ascii_upper rest) \<longrightarrow>
        retrieveVideoId (pre @ ''youtube.com/watch?v='' @ v @ rest) = Inr v)"
proof (intro conjI impI)
  assume "length videoId = 11"
  then show "retrieveVideoId videoId = Inr videoId"
    by (simp add: retrieveVideoId_def)
next
  show "retrieveVideoId (pre @ ''youtu.be/'' @ v @ rest) = Inr v"
    using assms(2) youtu_be_shape [OF assms(2,3), of rest]
    by (intro retrieveVideoId_found [OF assms(1)]) auto
next
  assume r: "CHR ''/'' \<notin> set rest"
  show "retrieveVideoId (pre @ ''youtube.com/embed/'' @ v @ rest) = Inr v"
    using assms(2) embed_shapes(1) [OF assms(2,3) r]
    by (auto intro!: retrieveVideoId_found [OF assms(1)])
  show "retrieveVideoId (pre @ ''youtube.com/v/'' @ v @ rest) = Inr v"
    using assms(2) embed_shapes(2) [OF assms(2,3) r]
    by (auto intro!: retrieveVideoId_found [OF assms(1)])
  show "retrieveVideoId (pre @ ''youtube.com/e/'' @ v @ rest) = Inr v"
    using assms(2) embed_shapes(3) [OF assms(2,3) r]
    by (auto intro!: retrieveVideoId_found [OF assms(1)])
next
  assume "CHR ''/'' \<notin> set rest
        \<and> \<not> includes_js ''?V='' (map ascii_upper rest)
        \<and> \<not> includes_js ''&V='' (map ascii_upper rest)"
  then show "retrieveVideoId (pre @ ''youtube.com/watch?v='' @ v @ rest) = Inr v"
    using assms(2) watch_shape [OF assms(2,3), of rest]
    by (intro retrieveVideoId_found [OF assms(1)]) auto
qed

section \<open>The requests of a stage do not depend on the log\<close>

lemma locate_captions_frame:
  "locate_captions e videoId ident config w =
     (fst (locate_captions e videoId ident config []),
      w @ [page_request ident config])"
  by (simp add: locate_captions_def fetch_def split: option.split sum.split)

lemma innertube_try_frame:
  "innertube_try e ident config w =
     (fst (innertube_try e ident config []),
      w @ snd (innertube_try e ident config []))"
  by (simp add: innertube_try_def fetch_def Let_def split: option.split sum.split)

section \<open>Helper facts about the stages\<close>

lemma map_list_Inr:
  "(\<And>x. x \<in> set xs \<Longrightarrow> f x = Inr (g x)) \<Longrightarrow> map_list f xs = Inr (map g xs)"
  by (induction xs) simp_all

lemma segments_with_lang:
  assumes "segment_lang config captions = Inr v"
  shows "segments e config captions transcriptBody =
     Inr (map (\<lambda>(S, D, T). \<lparr> text_of = T, duration = parseFloat e D,
                                 offset = parseFloat e S, lang_of = v \<rparr>)
            (text_elements transcriptBody))"
  unfolding segments_def matchAll_RE_XML_TRANSCRIPT
  by (rule trans [OF map_list_Inr [where g = "\<lambda>result. \<lparr> text_of = capture result 3,
          duration = parseFloat e (capture result 2), offset = parseFloat e (capture result 1),
          lang_of = v \<rparr>"]])
     (auto simp: assms capture_def)

lemma fetchTranscript_empty_body:
  assumes "retrieveVideoId videoId = Inr ident"
    and "locate_captions e videoId ident config w = (captions, w1)"
    and "select_url videoId config captions = Inr transcriptURL"
    and "net e (track_request transcriptURL config) = Some resp"
    and "resp_ok resp" and "resp_text resp = Some []"
  shows "fetchTranscript e videoId config w =
           innertube_fallback e videoId ident config (w1 @ [track_request transcriptURL config])"
  using assms by (simp add: fetchTranscript_def fetch_track_def fetch_def)

lemma innertube_try_log:
  "\<exists>w2. snd (innertube_try e ident config w) = w @ innertube_request e ident # w2
         \<and> (\<forall>r \<in> set w2. req_method r = GET)"
  by (simp add: innertube_try_def fetch_def Let_def innertube_track_request_def
        split: option.split sum.split)

lemma innertube_fallback_log:
  "snd (innertube_fallback e videoId ident config w) = snd (innertube_try e ident config w)"
  by (cases "innertube_try e ident config w")
     (simp add: innertube_fallback_def split: sum.split option.split)

lemma innertube_fallback_result:
  "fst (innertube_fallback e videoId ident config w) =
     (case fst (innertube_try e ident config []) of
        Inr (Some results) \<Rightarrow> Inr results
      | _ \<Rightarrow> Inl (YoutubeTranscriptNotAvailableError videoId))"
proof -
  obtain r l where "innertube_try e ident config w = (r, l)" by force
  moreover from this have "fst (innertube_try e ident config []) = r"
    using innertube_try_frame [of e ident config w] by simp
  ultimately show ?thesis
    by (simp add: innertube_fallback_def split: sum.split option.split)
qed

lemma example_identifier: "retrieveVideoId ''dQw4w9WgXcQ'' = Inr ''dQw4w9WgXcQ''"
  by (simp add: retrieveVideoId_def)

lemma example_locate:
  "locate_captions (fallback_env player second) ''dQw4w9WgXcQ'' ''dQw4w9WgXcQ'' None []
     = (en_fr_catalog, [page_request ''dQw4w9WgXcQ'' None])"
  by code_simp

lemma example_select:
  "select_url ''dQw4w9WgXcQ'' None en_fr_catalog = Inr (JStr ''https://t/en'')"
  by code_simp

lemma example_track:
  "net (fallback_env player second) (track_request (JStr ''https://t/en'') None)
     = Some (ok_response [])"
  by code_simp

lemma example_ok: "resp_ok (ok_response t)" "resp_text (ok_response t) = Some t"
  by (simp_all add: ok_response_def)

lemma example_post:
  "net (fallback_env player second)
     (innertube_request (fallback_env player second) ''dQw4w9WgXcQ'') = Some player"
  by code_simp

section \<open>The state of the module is read and not written\<close>

lemma RegExpBuiltinExec_not_global:
  "\<not> re_global R \<Longrightarrow> snd (RegExpBuiltinExec R s) = R"
  by (simp add: RegExpBuiltinExec_def split: option.split)

lemma retrieveVideoId_m_state:
  "snd (retrieveVideoId_m videoId m) = m"
proof -
  have "snd (RegExpBuiltinExec (RE_YOUTUBE_object m) videoId) = RE_YOUTUBE_object m"
    by (rule RegExpBuiltinExec_not_global) (simp add: RE_YOUTUBE_object_def)
  then show ?thesis
    by (cases "RegExpBuiltinExec (RE_YOUTUBE_object m) videoId")
       (auto simp: retrieveVideoId_m_def RE_YOUTUBE_object_def split: option.split)
qed

lemma segments_m_state:
  "snd (segments_m e config captions transcriptBody m) = m"
  by (simp add: segments_m_def matchAll_js_def RE_XML_TRANSCRIPT_object_def)

lemma segments_m_stateD:
  "segments_m e config captions transcriptBody m = (r, m') \<Longrightarrow> m' = m"
  using segments_m_state [of e config captions transcriptBody m] by simp

lemma innertube_try_m_frame:
  "innertube_try_m e ident config m w =
     (fst (innertube_try_m e ident config m []), m,
      w @ snd (snd (innertube_try_m e ident config m [])))"
  unfolding innertube_try_m_def fetch_def Let_def
  by (auto split: option.split sum.split prod.split dest: segments_m_stateD)

lemma innertube_fallback_m_frame:
  "innertube_fallback_m e videoId ident config m w =
     (fst (innertube_fallback_m e videoId ident config m []), m,
      w @ snd (snd (innertube_fallback_m e videoId ident config m [])))"
proof -
  obtain r l where t: "innertube_try_m e ident config m [] = (r, m, l)"
    using innertube_try_m_frame [of e ident config m "[]"] by metis
  then have "innertube_try_m e ident config m w = (r, m, w @ l)"
    using innertube_try_m_frame [of e ident config m w] by simp
  with t show ?thesis
    by (simp add: innertube_fallback_m_def split: sum.split option.split)
qed

lemma fetch_track_m_frame:
  "fetch_track_m e videoId ident config captions transcriptURL m w =
     (fst (fetch_track_m e videoId ident config captions transcriptURL m []), m,
      w @ snd (snd (fetch_track_m e videoId ident config captions transcriptURL m [])))"
proof -
  have a: "innertube_fallback_m e videoId ident config m (w @ [r]) =
     (fst (innertube_fallback_m e videoId ident config m [r]), m,
      w @ snd (snd (innertube_fallback_m e videoId ident config m [r])))" for r
    using innertube_fallback_m_frame [of e videoId ident config m "w @ [r]"]
          innertube_fallback_m_frame [of e videoId ident config m "[r]"]
    by simp
  show ?thesis
    by (auto simp: fetch_track_m_def fetch_def a split: option.split prod.split
          dest: segments_m_stateD)
qed

lemma fetchTranscript_m_frame:
  "fetchTranscript_m e videoId config m w =
     (fst (fetchTranscript_m e videoId config m []), m,
      w @ snd (snd (fetchTranscript_m e videoId config m [])))"
proof -
  obtain r where r: "retrieveVideoId_m videoId m = (r, m)"
    using retrieveVideoId_m_state [of videoId m] by (metis prod.collapse)
  show ?thesis
  proof (cases r)
    case (Inl err)
    with r show ?thesis by (simp add: fetchTranscript_m_def)
  next
    case (Inr ident)
    obtain captions where c: "locate_captions e videoId ident config [] =
        (captions, [page_request ident config])"
      using locate_captions_frame [of e videoId ident config "[]"] by simp
    then have c': "locate_captions e videoId ident config w =
        (captions, w @ [page_request ident config])"
      using locate_captions_frame [of e videoId ident config w] by simp
    show ?thesis
    proof (cases "select_url videoId config captions")
      case (Inl err)
      then show ?thesis using r Inr c c' by (simp add: fetchTranscript_m_def)
    next
      case u: (Inr transcriptURL)
      show ?thesis
        using r Inr u c c'
          fetch_track_m_frame [of e videoId ident config captions transcriptURL m
                                  "w @ [page_request ident config]"]
          fetch_track_m_frame [of e videoId ident config captions transcriptURL m
                                  "[page_request ident config]"]
        by (simp add: fetchTranscript_m_def)
    qed
  qed
qed

section \<open>In the state in which the module is loaded\<close>

lemma star_drop:
  "t \<in> set (star p s) \<Longrightarrow> \<exists>k \<le> length s. t = drop k s"
proof (induction s)
  case Nil
  then show ?case by simp
next
  case (Cons c s)
  then consider "t = c # s" | "t \<in> set (star p s)"
    by (auto split: if_splits)
  then show ?case
  proof cases
    case 1
    then show ?thesis by (intro exI [of _ 0]) simp
  next
    case 2
    with Cons.IH obtain k where "k \<le> length s" "t = drop k s" by auto
    then show ?thesis by (intro exI [of _ "Suc k"]) simp
  qed
qed

lemma rmatch_drop:
  "(caps', rest) \<in> set (rmatch r (caps, s)) \<Longrightarrow> \<exists>k \<le> length s. rest = drop k s"
proof (induction r arbitrary: caps s caps' rest)
  case Eps
  then show ?case by (intro exI [of _ 0]) simp
next
  case (Atom p)
  then show ?case
    by (cases s) (auto split: if_splits intro!: exI [of _ "Suc 0"])
next
  case (Seq a b)
  then obtain c1 s1 where 1: "(c1, s1) \<in> set (rmatch a (caps, s))"
    and 2: "(caps', rest) \<in> set (rmatch b (c1, s1))"
    by auto
  from Seq.IH(1) [OF 1] obtain k1 where k1: "k1 \<le> length s" "s1 = drop k1 s" by auto
  from Seq.IH(2) [OF 2] obtain k2 where k2: "k2 \<le> length s1" "rest = drop k2 s1" by auto
  show ?case
    using k1 k2 by (intro exI [of _ "k1 + k2"]) (simp add: add.commute)
next
  case (Alt a b)
  then show ?case by auto
next
  case (Star p)
  then show ?case by (auto dest: star_drop)
next
  case (Group r)
  then show ?case by auto
qed

lemma exec_from_None:
  "exec_from r s i = None \<Longrightarrow> i \<le> j \<Longrightarrow> j \<le> length s \<Longrightarrow> rmatch r ([], drop j s) = []"
proof (induction r s i rule: exec_from.induct)
  case (1 r s i)
  from "1.prems" have i: "\<not> length s < i" by simp
  from "1.prems"(1) i have m: "rmatch r ([], drop i s) = []"
    by (subst (asm) exec_from.simps) (auto split: list.splits)
  with "1.prems"(1) i have n: "exec_from r s (Suc i) = None"
    by (subst (asm) exec_from.simps) simp
  show ?case
  proof (cases "j = i")
    case True
    with m show ?thesis by simp
  next
    case False
    with "1.prems" have "Suc i \<le> j" by simp
    with "1.IH" [OF i m n] "1.prems"(3) show ?thesis by simp
  qed
qed

lemma exec_from_Some:
  "exec_from r s i = Some (st, caps, e) \<Longrightarrow>
     i \<le> st \<and> st \<le> length s
     \<and> (\<exists>rest ms. rmatch r ([], drop st s) = (caps, rest) # ms \<and> e = length s - length rest)
     \<and> (\<forall>j. i \<le> j \<and> j < st \<longrightarrow> rmatch r ([], drop j s) = [])"
proof (induction r s i rule: exec_from.induct)
  case (1 r s i)
  from "1.prems" have i: "\<not> length s < i"
    by (subst (asm) exec_from.simps) (auto split: if_splits)
  show ?case
  proof (cases "rmatch r ([], drop i s)")
    case Nil
    with "1.prems" i have n: "exec_from r s (Suc i) = Some (st, caps, e)"
      by (subst (asm) exec_from.simps) simp
    from "1.IH" [OF i Nil n] Nil show ?thesis
      by (auto simp: le_Suc_eq less_Suc_eq_le) (metis Suc_leI le_neq_implies_less)
  next
    case (Cons m ms)
    with "1.prems" i show ?thesis
      by (subst (asm) exec_from.simps) (auto split: prod.splits)
  qed
qed

lemma matchAll_skip:
  assumes "\<forall>j. i \<le> j \<and> j < st \<longrightarrow> rmatch r ([], drop j s) = []"
    and "i \<le> st" and "st \<le> length s"
  shows "matchAll r (drop i s) = matchAll r (drop st s)"
  using assms
proof (induction "st - i" arbitrary: i)
  case 0
  then show ?case by simp
next
  case (Suc n)
  then have i: "i < st" "i < length s" by auto
  with Suc.prems have m: "rmatch r ([], drop i s) = []" by auto
  have d: "drop i s = s ! i # drop (Suc i) s"
    using i by (simp add: Cons_nth_drop_Suc)
  have "matchAll r (drop i s) = (case drop i s of [] \<Rightarrow> [] | _ # cs \<Rightarrow> matchAll r cs)"
    by (subst matchAll.simps) (simp add: m)
  also have "\<dots> = matchAll r (drop (Suc i) s)"
    by (simp add: d)
  also have "\<dots> = matchAll r (drop st s)"
    using Suc.hyps Suc.prems i by (intro Suc.hyps(1)) auto
  finally show ?case .
qed

lemma matchAll_none:
  assumes "\<forall>j. i \<le> j \<and> j \<le> length s \<longrightarrow> rmatch r ([], drop j s) = []"
    and "i \<le> length s"
  shows "matchAll r (drop i s) = []"
proof -
  have "matchAll r (drop i s) = matchAll r (drop (length s) s)"
    using assms by (intro matchAll_skip) auto
  also have "\<dots> = []"
  proof -
    have "rmatch r ([], drop (length s) s) = []"
      using assms by blast
    then show ?thesis
      by (subst matchAll.simps) simp
  qed
  finally show ?thesis .
qed

lemma matchAll_iterator_matchAll:
  "i \<le> length s \<Longrightarrow>
     matchAll_iterator \<lparr> re_source = r, re_global = True, lastIndex = i \<rparr> s
       = matchAll r (drop i s)"
proof (induction "Suc (length s) - i" arbitrary: i rule: less_induct)
  case less
  let ?R = "\<lparr> re_source = r, re_global = True, lastIndex = i \<rparr>"
  show ?case
  proof (cases "exec_from r s i")
    case None
    then have "matchAll r (drop i s) = []"
      using less.prems by (intro matchAll_none) (auto dest: exec_from_None)
    moreover have "matchAll_iterator ?R s = []"
      using None by (subst matchAll_iterator.simps) (simp add: RegExpBuiltinExec_def)
    ultimately show ?thesis by simp
  next
    case (Some a)
    obtain st caps e where a: "a = (st, caps, e)" by (cases a) auto
    from exec_from_Some [OF Some [unfolded a]] obtain rest ms where
      st: "i \<le> st" "st \<le> length s"
      and m: "rmatch r ([], drop st s) = (caps, rest) # ms"
      and e: "e = length s - length rest"
      and skip: "\<forall>j. i \<le> j \<and> j < st \<longrightarrow> rmatch r ([], drop j s) = []"
      by auto
    from m have "(caps, rest) \<in> set (rmatch r ([], drop st s))" by simp
    then obtain k where k: "k \<le> length (drop st s)" "rest = drop k (drop st s)"
      by (auto dest: rmatch_drop)
    then have e': "e = st + k" and rest: "rest = drop e s"
      using st e by (simp_all add: add.commute)
    have rhs: "matchAll r (drop i s) =
        caps # (if k \<noteq> 0 then matchAll r (drop e s)
                else (case drop st s of [] \<Rightarrow> [] | _ # cs \<Rightarrow> matchAll r cs))"
    proof -
      have "matchAll r (drop i s) = matchAll r (drop st s)"
        using skip st by (rule matchAll_skip)
      also have "\<dots> = caps # (if k \<noteq> 0 then matchAll r (drop e s)
                else (case drop st s of [] \<Rightarrow> [] | _ # cs \<Rightarrow> matchAll r cs))"
        using k st by (subst matchAll.simps) (auto simp: m rest e')
      finally show ?thesis .
    qed
    have lhs: "matchAll_iterator ?R s =
        caps # matchAll_iterator
                 \<lparr> re_source = r, re_global = True, lastIndex = (if k = 0 then Suc st else e) \<rparr> s"
      using Some a st e'
      by (subst matchAll_iterator.simps) (auto simp: RegExpBuiltinExec_def)
    show ?thesis
    proof (cases "k = 0")
      case False
      then have "i < e" "e \<le> length s"
        using e' st k by auto
      then have "matchAll_iterator \<lparr> re_source = r, re_global = True, lastIndex = e \<rparr> s
                   = matchAll r (drop e s)"
        by (intro less.hyps) auto
      with False show ?thesis by (simp add: lhs rhs)
    next
      case True
      show ?thesis
      proof (cases "st < length s")
        case True
        then have "matchAll_iterator \<lparr> re_source = r, re_global = True, lastIndex = Suc st \<rparr> s
                   = matchAll r (drop (Suc st) s)"
          using st by (intro less.hyps) auto
        moreover have "drop st s = s ! st # drop (Suc st) s"
          using True by (simp add: Cons_nth_drop_Suc)
        ultimately show ?thesis
          using \<open>k = 0\<close> by (simp add: lhs rhs)
      next
        case False
        then have l: "st = length s" using st by simp
        have "exec_from r s (Suc (length s)) = None"
          by (subst exec_from.simps) simp
        then have "matchAll_iterator \<lparr> re_source = r, re_global = True, lastIndex = Suc st \<rparr> s = []"
          by (subst matchAll_iterator.simps) (simp add: RegExpBuiltinExec_def l)
        then show ?thesis
          using \<open>k = 0\<close> l by (simp add: lhs rhs)
      qed
    qed
  qed
qed

lemma exec_from_search:
  "i \<le> length s \<Longrightarrow>
     map_option (\<lambda>(st, caps, e). caps) (exec_from r s i) = map_option fst (search r (drop i s))"
proof (induction r s i rule: exec_from.induct)
  case (1 r s i)
  show ?case
  proof (cases "rmatch r ([], drop i s)")
    case (Cons m ms)
    with "1.prems" show ?thesis
      by (subst exec_from.simps, subst search.simps) (auto split: prod.splits)
  next
    case Nil
    show ?thesis
    proof (cases "i < length s")
      case True
      then have d: "drop i s = s ! i # drop (Suc i) s"
        by (simp add: Cons_nth_drop_Suc)
      have "map_option (\<lambda>(st, caps, e). caps) (exec_from r s (Suc i))
              = map_option fst (search r (drop (Suc i) s))"
        using True Nil by (intro "1.IH") auto
      then show ?thesis
        using True Nil
        by (subst exec_from.simps, subst search.simps) (simp add: d)
    next
      case False
      with "1.prems" have l: "i = length s" by simp
      have "exec_from r s (Suc (length s)) = None"
        by (subst exec_from.simps) simp
      then show ?thesis
        using Nil l by (subst exec_from.simps, subst search.simps) simp
    qed
  qed
qed

lemma retrieveVideoId_m_eq:
  "retrieveVideoId_m videoId m = (retrieveVideoId videoId, m)"
proof -
  have s: "map_option (\<lambda>(st, caps, e). caps) (exec_from RE_YOUTUBE videoId 0)
             = map_option fst (search RE_YOUTUBE videoId)"
    using exec_from_search [of 0 videoId RE_YOUTUBE] by simp
  show ?thesis
  proof (cases "exec_from RE_YOUTUBE videoId 0")
    case None
    with s have "search RE_YOUTUBE videoId = None" by simp
    with None show ?thesis
      by (simp add: retrieveVideoId_m_def retrieveVideoId_def RegExpBuiltinExec_def
            RE_YOUTUBE_object_def)
  next
    case (Some a)
    obtain st caps e where a: "a = (st, caps, e)" by (cases a) auto
    with s Some obtain rest where "search RE_YOUTUBE videoId = Some (caps, rest)"
      by (cases "search RE_YOUTUBE videoId") auto
    with Some a show ?thesis
      by (simp add: retrieveVideoId_m_def retrieveVideoId_def RegExpBuiltinExec_def
            RE_YOUTUBE_object_def)
  qed
qed

lemma segments_m_eq:
  "RE_XML_TRANSCRIPT_lastIndex m = 0 \<Longrightarrow>
     segments_m e config captions transcriptBody m
       = (segments e config captions transcriptBody, m)"
  using matchAll_iterator_matchAll [of 0 transcriptBody RE_XML_TRANSCRIPT]
  by (simp add: segments_m_def segments_def matchAll_js_def RE_XML_TRANSCRIPT_object_def)

lemma innertube_try_m_eq:
  "RE_XML_TRANSCRIPT_lastIndex m = 0 \<Longrightarrow>
     innertube_try_m e ident config m w =
       (fst (innertube_try e ident config w), m, snd (innertube_try e ident config w))"
  by (simp add: innertube_try_m_def innertube_try_def segments_m_eq Let_def
        split: option.split sum.split prod.split)

lemma innertube_fallback_m_eq:
  "RE_XML_TRANSCRIPT_lastIndex m = 0 \<Longrightarrow>
     innertube_fallback_m e videoId ident config m w =
       (fst (innertube_fallback e videoId ident config w), m,
        snd (innertube_fallback e videoId ident config w))"
  by (cases "innertube_try e ident config w")
     (simp add: innertube_fallback_m_def innertube_fallback_def innertube_try_m_eq
        split: option.split sum.split)

lemma fetch_track_m_eq:
  "RE_XML_TRANSCRIPT_lastIndex m = 0 \<Longrightarrow>
     fetch_track_m e videoId ident config captions transcriptURL m w =
       (fst (fetch_track e videoId ident config captions transcriptURL w), m,
        snd (fetch_track e videoId ident config captions transcriptURL w))"
  by (simp add: fetch_track_m_def fetch_track_def innertube_fallback_m_eq segments_m_eq
        split: option.split prod.split)

lemma fetchTranscript_m_eq:
  "RE_XML_TRANSCRIPT_lastIndex m = 0 \<Longrightarrow>
     fetchTranscript_m e videoId config m w =
       (fst (fetchTranscript e videoId config w), m, snd (fetchTranscript e videoId config w))"
  by (simp add: fetchTranscript_m_def fetchTranscript_def retrieveVideoId_m_eq fetch_track_m_eq
        split: sum.split prod.split)

section \<open>The claims\<close>

text \<open>
  C1 (the code departs from the claim). The claim: a page without the marker
  \<open>"captions":\<close> that contains \<open>class="g-recaptcha"\<close> makes the call fail with
  \<open>YoutubeTranscriptTooManyRequestError\<close>. On such a page the code throws that
  error inside the \<open>try\<close> block, whose \<open>catch\<close> clause discards it, and the call fails
  with \<open>YoutubeTranscriptDisabledError\<close>.
\<close>

theorem captcha_page_reported_as_disabled:
  \<open>\<not> includes_js ''"captions":'' captcha_page
   \<and> includes_js ''class="g-recaptcha"'' captcha_page
   \<and> page_captions captcha_env ''dQw4w9WgXcQ'' captcha_page
       = Inl YoutubeTranscriptTooManyRequestError
   \<and> fst (fetchTranscript captcha_env ''dQw4w9WgXcQ'' None [])
       = Inl (YoutubeTranscriptDisabledError ''dQw4w9WgXcQ'')\<close>
  by code_simp

text \<open>
  C2 (the code departs from the claim). The claim: a call that fails throws an error
  of the module, never an exception of the platform, also when the list of tracks
  is empty and no language is configured. With an empty list of tracks the code
  reads \<open>baseUrl\<close> of \<open>undefined\<close> outside every \<open>try\<close> block, and the call fails with a
  \<open>TypeError\<close>.
\<close>

theorem empty_track_list_throws_TypeError:
  "fst (locate_captions no_tracks_env ''dQw4w9WgXcQ'' ''dQw4w9WgXcQ'' None [])
     = JObj [(''captionTracks'', JArr [])]
   \<and> fst (fetchTranscript no_tracks_env ''dQw4w9WgXcQ'' None []) = Inl (Uncaught TypeError)
   \<and> \<not> is_YoutubeTranscriptError (Uncaught TypeError)"
  by code_simp

text \<open>
  C3. When the content of the chosen track is fetched with success and is empty, the
  call issues the POST request of the second pipeline right after the request for
  the track, and its result is what the \<open>try\<close> block of the second pipeline returns
  or else \<open>YoutubeTranscriptNotAvailableError\<close>: whatever the block throws is
  discarded. In particular the error is \<open>YoutubeTranscriptNotAvailableError\<close> when
  the POST is rejected, when its status is not a success, when its body cannot be
  read or is not JSON, and when the answer has no list of caption tracks.
\<close>

theorem empty_body_runs_second_pipeline:
  assumes "retrieveVideoId videoId = Inr ident"
    and "locate_captions e videoId ident config w = (captions, w1)"
    and "select_url videoId config captions = Inr transcriptURL"
    and "net e (track_request transcriptURL config) = Some resp"
    and "resp_ok resp" and "resp_text resp = Some []"
  shows
  "(\<exists>w2. snd (fetchTranscript e videoId config w) =
           w1 @ [track_request transcriptURL config, innertube_request e ident] @ w2)
   \<and> fst (fetchTranscript e videoId config w) =
       (case fst (innertube_try e ident config []) of
          Inr (Some results) \<Rightarrow> Inr results
        | _ \<Rightarrow> Inl (YoutubeTranscriptNotAvailableError videoId))
   \<and> (net e (innertube_request e ident) = None \<longrightarrow>
        fst (fetchTranscript e videoId config w) = Inl (YoutubeTranscriptNotAvailableError videoId))
   \<and> (\<forall>p. net e (innertube_request e ident) = Some p
            \<and> (\<not> resp_ok p \<or> resp_text p = None) \<longrightarrow>
        fst (fetchTranscript e videoId config w) = Inl (YoutubeTranscriptNotAvailableError videoId))
   \<and> (\<forall>p t. net e (innertube_request e ident) = Some p \<and> resp_text p = Some t
            \<and> JSON_parse e t = None \<longrightarrow>
        fst (fetchTranscript e videoId config w) = Inl (YoutubeTranscriptNotAvailableError videoId))
   \<and> (\<forall>p t d. net e (innertube_request e ident) = Some p \<and> resp_text p = Some t
            \<and> JSON_parse e t = Some d
            \<and> \<not> truthy (opt_get (opt_get (opt_get d ''captions'')
                                     ''playerCaptionsTracklistRenderer'') ''captionTracks'') \<longrightarrow>
        fst (fetchTranscript e videoId config w) = Inl (YoutubeTranscriptNotAvailableError videoId))"
proof -
  note eq = fetchTranscript_empty_body [OF assms]
  have r: "fst (fetchTranscript e videoId config w) =
       (case fst (innertube_try e ident config []) of
          Inr (Some results) \<Rightarrow> Inr results
        | _ \<Rightarrow> Inl (YoutubeTranscriptNotAvailableError videoId))"
    by (simp add: eq innertube_fallback_result)
  have l: "\<exists>w2. snd (fetchTranscript e videoId config w) =
           w1 @ [track_request transcriptURL config, innertube_request e ident] @ w2"
    using innertube_try_log [of e ident config "w1 @ [track_request transcriptURL config]"]
    by (auto simp: eq innertube_fallback_log)
  have a: "net e (innertube_request e ident) = None \<Longrightarrow>
      fst (fetchTranscript e videoId config w) = Inl (YoutubeTranscriptNotAvailableError videoId)"
    by (simp add: r innertube_try_def fetch_def)
  have b: "fst (fetchTranscript e videoId config w) = Inl (YoutubeTranscriptNotAvailableError videoId)"
    if "net e (innertube_request e ident) = Some p" "\<not> resp_ok p \<or> resp_text p = None" for p
    using that by (auto simp: r innertube_try_def fetch_def)
  have c: "fst (fetchTranscript e videoId config w) = Inl (YoutubeTranscriptNotAvailableError videoId)"
    if "net e (innertube_request e ident) = Some p" "resp_text p = Some t" "JSON_parse e t = None"
    for p t
    using that by (auto simp: r innertube_try_def fetch_def)
  have d: "fst (fetchTranscript e videoId config w) = Inl (YoutubeTranscriptNotAvailableError videoId)"
    if "net e (innertube_request e ident) = Some p" "resp_text p = Some t"
       "JSON_parse e t = Some d"
       "\<not> truthy (opt_get (opt_get (opt_get d ''captions'')
                                     ''playerCaptionsTracklistRenderer'') ''captionTracks'')"
    for p t d
    using that by (auto simp: r innertube_try_def fetch_def Let_def)
  show ?thesis
    using r l a b c d by blast
qed

text \<open>C3, at a run in which the player endpoint answers with a status that is not a success.\<close>

theorem empty_body_runs_second_pipeline_witness:
  "fst (fetchTranscript (fallback_env refusing_player []) ''dQw4w9WgXcQ'' None [])
     = Inl (YoutubeTranscriptNotAvailableError ''dQw4w9WgXcQ'')
   \<and> take 3 (snd (fetchTranscript (fallback_env refusing_player []) ''dQw4w9WgXcQ'' None []))
     = [page_request ''dQw4w9WgXcQ'' None, track_request (JStr ''https://t/en'') None,
        innertube_request (fallback_env refusing_player []) ''dQw4w9WgXcQ'']"
proof -
  have n: "\<not> resp_ok refusing_player"
    by (simp add: refusing_player_def)
  show ?thesis
    using empty_body_runs_second_pipeline
      [OF example_identifier example_locate example_select example_track example_ok,
       of refusing_player "[]"]
      example_post [of refusing_player "[]"] n
    by auto
qed

text \<open>
  C4 (as amended). On a catalog that is a non-empty array of objects: when
  \<open>config.lang\<close> is a non-empty string and no track has exactly that
  \<open>languageCode\<close>, the selection fails with
  \<open>YoutubeTranscriptNotAvailableLanguageError\<close> carrying the language, the
  language codes of all tracks in the order of the catalog and the \<open>videoId\<close>
  argument; when a track has it, the first such track is selected; when
  \<open>config.lang\<close> is absent or is the empty string, the first track is selected.
\<close>

theorem select_track_by_language:
  assumes "tracks \<noteq> []" and "list_all is_object tracks"
  shows
  "(config_lang config = Some l \<and> l \<noteq> [] \<longrightarrow>
      (case List.find (\<lambda>track. opt_get track ''languageCode'' = JStr l) tracks of
         None \<Rightarrow>
           select_track videoId config (JArr tracks) =
             Inl (YoutubeTranscriptNotAvailableLanguageError l
                    (map (\<lambda>track. opt_get track ''languageCode'') tracks) videoId)
       | Some track \<Rightarrow> select_track videoId config (JArr tracks) = Inr track))
   \<and> (config_lang config = None \<or> config_lang config = Some [] \<longrightarrow>
        select_track videoId config (JArr tracks) = Inr (hd tracks))"
proof -
  have gp: "get_prop t k = Inr (opt_get t k)" if "is_object t" for t k
    using that by (cases t) auto
  have hl: "has_language l t = Inr (opt_get t ''languageCode'' = JStr l)" if "is_object t" for t
    using that by (simp add: has_language_def gp)
  have some: "some_list (has_language l) ts =
      Inr (List.find (\<lambda>track. opt_get track ''languageCode'' = JStr l) ts \<noteq> None)"
    if "list_all is_object ts" for ts
    using that by (induction ts) (auto simp: hl)
  have find: "find_list (has_language l) ts =
      Inr (case List.find (\<lambda>track. opt_get track ''languageCode'' = JStr l) ts of
             None \<Rightarrow> JUndefined | Some t \<Rightarrow> t)"
    if "list_all is_object ts" for ts
    using that by (induction ts) (auto simp: hl)
  have codes: "map_list (\<lambda>track. get_prop track ''languageCode'') ts =
      Inr (map (\<lambda>track. opt_get track ''languageCode'') ts)"
    if "list_all is_object ts" for ts
    using that by (intro map_list_Inr) (auto simp: gp list_all_iff)
  show ?thesis
  proof (intro conjI impI)
    assume "config_lang config = Some l \<and> l \<noteq> []"
    then have r: "requested_lang config = Some l"
      by (simp add: requested_lang_def)
    show "case List.find (\<lambda>track. opt_get track ''languageCode'' = JStr l) tracks of
         None \<Rightarrow>
           select_track videoId config (JArr tracks) =
             Inl (YoutubeTranscriptNotAvailableLanguageError l
                    (map (\<lambda>track. opt_get track ''languageCode'') tracks) videoId)
       | Some track \<Rightarrow> select_track videoId config (JArr tracks) = Inr track"
      using assms(2)
      by (simp add: select_track_def check_language_def selected_track_def r some find codes
            split: option.split)
  next
    assume "config_lang config = None \<or> config_lang config = Some []"
    then have r: "requested_lang config = None"
      by (auto simp: requested_lang_def)
    show "select_track videoId config (JArr tracks) = Inr (hd tracks)"
      using assms(1)
      by (cases tracks) (simp_all add: select_track_def check_language_def selected_track_def r)
  qed
qed

text \<open>C4 as amended, at the catalog with an English and a French track.\<close>

theorem select_track_by_language_witness:
  "select_track ''dQw4w9WgXcQ'' (Some \<lparr> lang = Some ''fr'' \<rparr>) (JArr [en_track, fr_track])
     = Inr fr_track
   \<and> select_track ''dQw4w9WgXcQ'' (Some \<lparr> lang = Some ''de'' \<rparr>) (JArr [en_track, fr_track])
     = Inl (YoutubeTranscriptNotAvailableLanguageError ''de'' [JStr ''en'', JStr ''fr'']
              ''dQw4w9WgXcQ'')
   \<and> select_track ''dQw4w9WgXcQ'' None (JArr [en_track, fr_track]) = Inr en_track"
proof -
  have t: "[en_track, fr_track] \<noteq> []" "list_all is_object [en_track, fr_track]"
    by (simp_all add: en_track_def fr_track_def)
  have c: "config_lang (Some \<lparr> lang = Some l \<rparr>) = Some l" "config_lang None = None" for l
    by (simp_all add: config_lang_def)
  show ?thesis
    using select_track_by_language [OF t, of "Some \<lparr> lang = Some ''fr'' \<rparr>" "''fr''" "''dQw4w9WgXcQ''"]
          select_track_by_language [OF t, of "Some \<lparr> lang = Some ''de'' \<rparr>" "''de''" "''dQw4w9WgXcQ''"]
          select_track_by_language [OF t, of None "''fr''" "''dQw4w9WgXcQ''"]
    by (simp add: c en_track_def fr_track_def)
qed

text \<open>
  C4 as stated fails when \<open>config.lang\<close> is the empty string: it is set, no track
  has the language code \<open>""\<close>, and the first track is selected. And the error for
  a language that no track has carries the \<open>videoId\<close> argument as the caller gave
  it, here an address, not the identifier that \<open>retrieveVideoId\<close> returned.
\<close>

theorem empty_language_selects_first_track:
  "config_lang (Some \<lparr> lang = Some [] \<rparr>) = Some []
   \<and> opt_get en_track ''languageCode'' \<noteq> JStr []
   \<and> opt_get fr_track ''languageCode'' \<noteq> JStr []
   \<and> select_track ''dQw4w9WgXcQ'' (Some \<lparr> lang = Some [] \<rparr>) (JArr [en_track, fr_track])
       = Inr en_track
   \<and> retrieveVideoId ''https://youtu.be/dQw4w9WgXcQ'' = Inr ''dQw4w9WgXcQ''
   \<and> fst (fetchTranscript (fallback_env (ok_response player_json) two_cues)
             ''https://youtu.be/dQw4w9WgXcQ'' (Some \<lparr> lang = Some ''de'' \<rparr>) [])
       = Inl (YoutubeTranscriptNotAvailableLanguageError ''de'' [JStr ''en'', JStr ''fr'']
                ''https://youtu.be/dQw4w9WgXcQ'')"
  by code_simp

text \<open>
  C5. The segments of a timed-text body are, in the order of the document, one for
  each element \<open><text start="S" dur="D">TEXT</text>\<close> that the scan from left to
  right finds (\<open>S\<close> and \<open>D\<close> without a double quote, \<open>TEXT\<close> without \<open><\<close>), with
  \<open>offset = parseFloat(S)\<close>, \<open>duration = parseFloat(D)\<close>, the text \<open>TEXT\<close> as it
  stands, and as language \<open>config.lang\<close> when it is set and else the language code
  of the first track; a body without such an element gives the empty list.
\<close>

theorem segments_of_text_elements:
  "(text_elements transcriptBody = [] \<longrightarrow> segments e config captions transcriptBody = Inr [])
   \<and> (config_lang config = Some l \<longrightarrow>
        segments e config captions transcriptBody =
          Inr (map (\<lambda>(S, D, T). \<lparr> text_of = T, duration = parseFloat e D,
                                      offset = parseFloat e S, lang_of = JStr l \<rparr>)
                 (text_elements transcriptBody)))
   \<and> (config_lang config = None
        \<and> opt_get captions ''captionTracks'' = JArr (track # tracks)
        \<and> track \<noteq> JUndefined \<and> track \<noteq> JNull \<longrightarrow>
        segments e config captions transcriptBody =
          Inr (map (\<lambda>(S, D, T). \<lparr> text_of = T, duration = parseFloat e D,
                                      offset = parseFloat e S,
                                      lang_of = opt_get track ''languageCode'' \<rparr>)
                 (text_elements transcriptBody)))"
proof (intro conjI impI)
  assume "text_elements transcriptBody = []"
  then show "segments e config captions transcriptBody = Inr []"
    by (simp add: segments_def matchAll_RE_XML_TRANSCRIPT)
next
  assume "config_lang config = Some l"
  then have "segment_lang config captions = Inr (JStr l)"
    by (simp add: segment_lang_def)
  then show "segments e config captions transcriptBody =
          Inr (map (\<lambda>(S, D, T). \<lparr> text_of = T, duration = parseFloat e D,
                                      offset = parseFloat e S, lang_of = JStr l \<rparr>)
                 (text_elements transcriptBody))"
    by (rule segments_with_lang)
next
  assume h: "config_lang config = None
        \<and> opt_get captions ''captionTracks'' = JArr (track # tracks)
        \<and> track \<noteq> JUndefined \<and> track \<noteq> JNull"
  then have "get_prop captions ''captionTracks'' = Inr (JArr (track # tracks))"
    by (cases captions) auto
  moreover have "get_prop track ''languageCode'' = Inr (opt_get track ''languageCode'')"
    using h by (cases track) auto
  ultimately have "segment_lang config captions = Inr (opt_get track ''languageCode'')"
    using h by (simp add: segment_lang_def)
  then show "segments e config captions transcriptBody =
          Inr (map (\<lambda>(S, D, T). \<lparr> text_of = T, duration = parseFloat e D,
                                      offset = parseFloat e S,
                                      lang_of = opt_get track ''languageCode'' \<rparr>)
                 (text_elements transcriptBody))"
    by (rule segments_with_lang)
qed

text \<open>C5, at the body with two cues of the specification.\<close>

theorem segments_of_text_elements_witness:
  \<open>text_elements two_cues = [(''1.0'', ''2.5'', ''Hello''), (''3.5'', ''1.0'', ''World'')]
   \<and> segments (fallback_env (ok_response player_json) []) None en_fr_catalog two_cues =
       Inr [\<lparr> text_of = ''Hello'', duration = Finite 5 (- 1), offset = Finite 1 0,
               lang_of = JStr ''en'' \<rparr>,
            \<lparr> text_of = ''World'', duration = Finite 1 0, offset = Finite 7 (- 1),
               lang_of = JStr ''en'' \<rparr>]\<close>
proof -
  have a: "text_elements two_cues = [(''1.0'', ''2.5'', ''Hello''), (''3.5'', ''1.0'', ''World'')]"
    by code_simp
  have h: "config_lang None = None
        \<and> opt_get en_fr_catalog ''captionTracks'' = JArr (en_track # [fr_track])
        \<and> en_track \<noteq> JUndefined \<and> en_track \<noteq> JNull"
    by (simp add: config_lang_def en_fr_catalog_def en_track_def)
  have l: "opt_get en_track ''languageCode'' = JStr ''en''"
    by (simp add: en_track_def)
  show ?thesis
    using segments_of_text_elements
            [of two_cues "fallback_env (ok_response player_json) []" None en_fr_catalog
                _ en_track "[fr_track]"] h
    by (simp add: a l fallback_env_def table_env_def)
qed

text \<open>
  C6 (the code departs from the claim). The claim: from an address of a known shape
  \<open>retrieveVideoId\<close> returns exactly the identifier of 11 characters in it. For the
  embed address of the video \<open>M7lc1UVf-VE\<close> the code returns this identifier as
  long as the address ends with \<open>?enablejsapi=1\<close>; with the further parameter
  \<open>origin=http://example.com\<close> it returns \<open>example.com\<close>: the alternative for a
  path is tried before the one for \<open>embed/\<close>, and its greedy \<open>.+\<close> runs to the last
  \<open>/\<close> that 11 characters of an identifier follow.
\<close>

theorem embed_url_with_origin_yields_host:
  "length ''M7lc1UVf-VE'' = 11
   \<and> list_all idchar ''M7lc1UVf-VE''
   \<and> retrieveVideoId ''https://www.youtube.com/embed/M7lc1UVf-VE?enablejsapi=1''
       = Inr ''M7lc1UVf-VE''
   \<and> retrieveVideoId
         ''https://www.youtube.com/embed/M7lc1UVf-VE?enablejsapi=1&origin=http://example.com''
       = Inr ''example.com''"
  by code_simp

text \<open>
  C7 (as amended). An input that is not 11 characters long and in which the pattern
  has no match makes \<open>retrieveVideoId\<close> throw an instance of the base class
  \<open>YoutubeTranscriptError\<close> itself, with the message \<open>Impossible to retrieve
  Youtube video ID.\<close>, and not an instance of a class that extends it; the pattern
  has no match in an input that contains neither \<open>youtube.com/\<close> nor \<open>youtu.be/\<close>
  in any case of the letters.
\<close>

theorem unresolved_input_throws_base_error:
  assumes "length videoId \<noteq> 11"
  shows
  "(search RE_YOUTUBE videoId = None \<longrightarrow>
      retrieveVideoId videoId
        = Inl (YoutubeTranscriptError ''Impossible to retrieve Youtube video ID.''))
   \<and> (\<not> includes_js ''YOUTUBE.COM/'' (map ascii_upper videoId)
        \<and> \<not> includes_js ''YOUTU.BE/'' (map ascii_upper videoId) \<longrightarrow>
        search RE_YOUTUBE videoId = None)
   \<and> is_YoutubeTranscriptError (YoutubeTranscriptError ''Impossible to retrieve Youtube video ID.'')
   \<and> \<not> is_subclass_instance (YoutubeTranscriptError ''Impossible to retrieve Youtube video ID.'')"
  using assms by (auto simp: retrieveVideoId_def search_no_marker)

text \<open>C7 as amended, at the input \<open>not a url\<close>.\<close>

theorem unresolved_input_throws_base_error_witness:
  "search RE_YOUTUBE ''not a url'' = None
   \<and> retrieveVideoId ''not a url''
       = Inl (YoutubeTranscriptError ''Impossible to retrieve Youtube video ID.'')"
proof -
  have l: "length ''not a url'' \<noteq> 11" by simp
  have n: "\<not> includes_js ''YOUTUBE.COM/'' (map ascii_upper ''not a url'')
           \<and> \<not> includes_js ''YOUTU.BE/'' (map ascii_upper ''not a url'')"
    by (simp add: starts_with_def ascii_upper_def)
  show ?thesis
    using unresolved_input_throws_base_error [OF l] n by simp
qed

text \<open>
  C7 as stated fails: the error thrown for \<open>not a url\<close> is of the base class, the
  module has no class of its own for this failure.
\<close>

theorem no_dedicated_error_class_counterexample:
  "retrieveVideoId ''not a url''
     = Inl (YoutubeTranscriptError ''Impossible to retrieve Youtube video ID.'')
   \<and> \<not> is_subclass_instance (YoutubeTranscriptError ''Impossible to retrieve Youtube video ID.'')"
  by code_simp

text \<open>
  C8 (as amended). Whenever the second pipeline runs, the call issues one POST
  request, to \<open>https://www.youtube.com/youtubei/v1/player\<close>, whose body is the JSON
  text of \<open>{ context: { client: { clientName: "WEB", clientVersion:
  "2.20241211.01.00" } }, videoId: <id> }\<close> with the identifier that
  \<open>retrieveVideoId\<close> returned; every other request of the call is a GET.
\<close>

theorem second_pipeline_request:
  assumes "retrieveVideoId videoId = Inr ident"
    and "locate_captions e videoId ident config w = (captions, w1)"
    and "select_url videoId config captions = Inr transcriptURL"
    and "net e (track_request transcriptURL config) = Some resp"
    and "resp_ok resp" and "resp_text resp = Some []"
  shows
  "\<exists>w2. snd (fetchTranscript e videoId config w) =
      w @ [page_request ident config, track_request transcriptURL config,
           \<lparr> req_method = POST,
             url = JStr ''https://www.youtube.com/youtubei/v1/player'',
             headers = [(''Content-Type'', ''application/json''),
                        (''User-Agent'', USER_AGENT),
                        (''Referer'', ''https://www.youtube.com/watch?v='' @ ident),
                        (''Origin'', ''https://www.youtube.com'')],
             body = Some (JSON_stringify e
                      (JObj [(''context'',
                               JObj [(''client'',
                                 JObj [(''clientName'', JStr ''WEB''),
                                       (''clientVersion'', JStr ''2.20241211.01.00'')])]),
                             (''videoId'', JStr ident)])) \<rparr>] @ w2
     \<and> req_method (page_request ident config) = GET
     \<and> req_method (track_request transcriptURL config) = GET
     \<and> (\<forall>r \<in> set w2. req_method r = GET)"
proof -
  note eq = fetchTranscript_empty_body [OF assms]
  have w1: "w1 = w @ [page_request ident config]"
    using assms(2) locate_captions_frame [of e videoId ident config w] by simp
  show ?thesis
    using innertube_try_log [of e ident config "w1 @ [track_request transcriptURL config]"]
    by (auto simp: eq innertube_fallback_log w1 innertube_request_def innertube_body_def
          watch_url_def page_request_def track_request_def)
qed

text \<open>C8 as amended, at a run in which the English track of the page is empty.\<close>

theorem second_pipeline_request_witness:
  "snd (fetchTranscript (fallback_env (ok_response player_json) two_cues)
          ''dQw4w9WgXcQ'' None []) ! 2 =
     \<lparr> req_method = POST,
       url = JStr ''https://www.youtube.com/youtubei/v1/player'',
       headers = [(''Content-Type'', ''application/json''),
                  (''User-Agent'', USER_AGENT),
                  (''Referer'', ''https://www.youtube.com/watch?v=dQw4w9WgXcQ''),
                  (''Origin'', ''https://www.youtube.com'')],
       body = Some player_text \<rparr>"
proof -
  have s: "JSON_stringify (fallback_env (ok_response player_json) two_cues)
             (JObj [(''context'',
                      JObj [(''client'',
                        JObj [(''clientName'', JStr ''WEB''),
                              (''clientVersion'', JStr ''2.20241211.01.00'')])]),
                    (''videoId'', JStr ''dQw4w9WgXcQ'')]) = player_text"
    by (simp add: fallback_env_def table_env_def innertube_body_def)
  show ?thesis
    using second_pipeline_request
      [OF example_identifier example_locate example_select example_track example_ok,
       of "ok_response player_json" two_cues]
    by (auto simp: s)
qed

text \<open>C8 as stated fails: the address of the POST is not \<open>https://www.youtubei/v1/player\<close>.\<close>

theorem second_pipeline_url_counterexample:
  "req_method (snd (fetchTranscript (fallback_env (ok_response player_json) two_cues)
                      ''dQw4w9WgXcQ'' None []) ! 2) = POST
   \<and> url (snd (fetchTranscript (fallback_env (ok_response player_json) two_cues)
                 ''dQw4w9WgXcQ'' None []) ! 2)
       = JStr ''https://www.youtube.com/youtubei/v1/player''
   \<and> url (snd (fetchTranscript (fallback_env (ok_response player_json) two_cues)
                 ''dQw4w9WgXcQ'' None []) ! 2)
       \<noteq> JStr ''https://www.youtubei/v1/player''"
  by code_simp

text \<open>
  C9. A call leaves \<open>lastIndex\<close> of both pattern objects of the module as it found
  them, whatever their values: \<open>match\<close> with a pattern without the flag \<open>g\<close> writes
  nothing, and \<open>matchAll\<close> writes to a copy. So of two calls with the same input,
  the same configuration and the same platform, the second in the state that the
  first leaves behind, the second gives the result of the first, an output or an
  error, and issues the same requests. In the state in which the module is loaded,
  and so after any number of calls, the call is \<open>fetchTranscript\<close> of the section
  above, which starts every search at 0.
\<close>

theorem fetchTranscript_m_twice:
  "fst (snd (fetchTranscript_m e videoId config m w)) = m
   \<and> fst (fetchTranscript_m e videoId config
            (fst (snd (fetchTranscript_m e videoId config m w)))
            (snd (snd (fetchTranscript_m e videoId config m w))))
       = fst (fetchTranscript_m e videoId config m w)
   \<and> snd (snd (fetchTranscript_m e videoId config
            (fst (snd (fetchTranscript_m e videoId config m w)))
            (snd (snd (fetchTranscript_m e videoId config m w)))))
       = snd (snd (fetchTranscript_m e videoId config m w))
         @ snd (snd (fetchTranscript_m e videoId config m []))
   \<and> (RE_XML_TRANSCRIPT_lastIndex m = 0 \<longrightarrow>
        fetchTranscript_m e videoId config m w
          = (fst (fetchTranscript e videoId config w), m,
             snd (fetchTranscript e videoId config w)))"
proof -
  let ?first = "fetchTranscript_m e videoId config m w"
  have 1: "?first = (fst (fetchTranscript_m e videoId config m []), m,
      w @ snd (snd (fetchTranscript_m e videoId config m [])))"
    by (rule fetchTranscript_m_frame)
  have 2: "fetchTranscript_m e videoId config m (snd (snd ?first)) =
      (fst (fetchTranscript_m e videoId config m []), m,
       snd (snd ?first) @ snd (snd (fetchTranscript_m e videoId config m [])))"
    by (rule fetchTranscript_m_frame)
  have m: "fst (snd ?first) = m" by (subst 1) simp
  have "fst (fetchTranscript_m e videoId config m (snd (snd ?first))) = fst ?first
     \<and> snd (snd (fetchTranscript_m e videoId config m (snd (snd ?first))))
       = snd (snd ?first) @ snd (snd (fetchTranscript_m e videoId config m []))"
    using 1 2 by (metis fst_conv snd_conv)
  then show ?thesis
    by (simp add: m fetchTranscript_m_eq)
qed

text \<open>
  C9, at a run through both pipelines, from a state in which \<open>lastIndex\<close> of
  \<open>RE_XML_TRANSCRIPT\<close> is 1, where the first cue is not found, and from the state
  in which the module is loaded.
\<close>

theorem fetchTranscript_m_twice_witness:
  "fst (snd (fetchTranscript_m (fallback_env (ok_response player_json) two_cues)
               ''https://youtu.be/dQw4w9WgXcQ'' None
               \<lparr> RE_YOUTUBE_lastIndex = 7, RE_XML_TRANSCRIPT_lastIndex = 1 \<rparr> []))
     = \<lparr> RE_YOUTUBE_lastIndex = 7, RE_XML_TRANSCRIPT_lastIndex = 1 \<rparr>
   \<and> fst (fetchTranscript_m (fallback_env (ok_response player_json) two_cues)
            ''https://youtu.be/dQw4w9WgXcQ'' None
            \<lparr> RE_YOUTUBE_lastIndex = 7, RE_XML_TRANSCRIPT_lastIndex = 1 \<rparr> [])
     = Inr [\<lparr> text_of = ''World'', duration = Finite 1 0, offset = Finite 7 (- 1),
               lang_of = JStr ''en'' \<rparr>]
   \<and> fst (fetchTranscript_m (fallback_env (ok_response player_json) two_cues)
            ''https://youtu.be/dQw4w9WgXcQ'' None initial_module [])
     = fst (fetchTranscript (fallback_env (ok_response player_json) two_cues)
              ''https://youtu.be/dQw4w9WgXcQ'' None [])
   \<and> fst (fetchTranscript (fallback_env (ok_response player_json) two_cues)
            ''https://youtu.be/dQw4w9WgXcQ'' None [])
     = Inr [\<lparr> text_of = ''Hello'', duration = Finite 5 (- 1), offset = Finite 1 0,
               lang_of = JStr ''en'' \<rparr>,
            \<lparr> text_of = ''World'', duration = Finite 1 0, offset = Finite 7 (- 1),
               lang_of = JStr ''en'' \<rparr>]"
proof -
  have a: "fst (fetchTranscript_m (fallback_env (ok_response player_json) two_cues)
            ''https://youtu.be/dQw4w9WgXcQ'' None
            \<lparr> RE_YOUTUBE_lastIndex = 7, RE_XML_TRANSCRIPT_lastIndex = 1 \<rparr> [])
     = Inr [\<lparr> text_of = ''World'', duration = Finite 1 0, offset = Finite 7 (- 1),
               lang_of = JStr ''en'' \<rparr>]"
    by code_simp
  have b: "fst (fetchTranscript (fallback_env (ok_response player_json) two_cues)
            ''https://youtu.be/dQw4w9WgXcQ'' None [])
     = Inr [\<lparr> text_of = ''Hello'', duration = Finite 5 (- 1), offset = Finite 1 0,
               lang_of = JStr ''en'' \<rparr>,
            \<lparr> text_of = ''World'', duration = Finite 1 0, offset = Finite 7 (- 1),
               lang_of = JStr ''en'' \<rparr>]"
    by code_simp
  have i: "RE_XML_TRANSCRIPT_lastIndex initial_module = 0"
    by (simp add: initial_module_def)
  show ?thesis
    using fetchTranscript_m_twice
        [of "fallback_env (ok_response player_json) two_cues" "''https://youtu.be/dQw4w9WgXcQ''"
            None "\<lparr> RE_YOUTUBE_lastIndex = 7, RE_XML_TRANSCRIPT_lastIndex = 1 \<rparr>" "[]"]
      fetchTranscript_m_twice
        [of "fallback_env (ok_response player_json) two_cues" "''https://youtu.be/dQw4w9WgXcQ''"
            None initial_module "[]"]
      a b i
    by simp
qed

text \<open>
  C10 (as amended). When the content of the first track is empty and the second
  pipeline gets as far as the content of its own track: if that content is empty
  too, the call fails with \<open>YoutubeTranscriptNotAvailableError\<close>; if it is not
  empty and has no \<open><text>\<close> element, the call returns the empty list, as on the
  first path.
\<close>

theorem second_pipeline_content:
  assumes "retrieveVideoId videoId = Inr ident"
    and "locate_captions e videoId ident config w = (captions, w1)"
    and "select_url videoId config captions = Inr transcriptURL"
    and "net e (track_request transcriptURL config) = Some resp"
    and "resp_ok resp" and "resp_text resp = Some []"
    and "net e (innertube_request e ident) = Some p"
    and "resp_ok p" and "resp_text p = Some t" and "JSON_parse e t = Some d"
    and "innerTubeCaptions = opt_get (opt_get d ''captions'') ''playerCaptionsTracklistRenderer''"
    and "truthy innerTubeCaptions" and "truthy (opt_get innerTubeCaptions ''captionTracks'')"
    and "track_url config (opt_get innerTubeCaptions ''captionTracks'') = Inr u"
    and "net e (innertube_track_request ident u config) = Some p2"
    and "resp_ok p2" and "resp_text p2 = Some b"
  shows
  "(b = [] \<longrightarrow>
      fst (fetchTranscript e videoId config w) = Inl (YoutubeTranscriptNotAvailableError videoId))
   \<and> (b \<noteq> [] \<and> text_elements b = [] \<longrightarrow> fst (fetchTranscript e videoId config w) = Inr [])"
proof -
  note eq = fetchTranscript_empty_body [OF assms(1-6)]
  have r: "fst (fetchTranscript e videoId config w) =
       (case fst (innertube_try e ident config []) of
          Inr (Some results) \<Rightarrow> Inr results
        | _ \<Rightarrow> Inl (YoutubeTranscriptNotAvailableError videoId))"
    by (simp add: eq innertube_fallback_result)
  have t: "fst (innertube_try e ident config []) =
      (if length b > 0 then
         (case segments e config innerTubeCaptions b of
            Inl err \<Rightarrow> Inl err | Inr results \<Rightarrow> Inr (Some results))
       else Inr None)"
    using assms(7-17) by (simp add: innertube_try_def fetch_def Let_def split: sum.split)
  have s: "text_elements b = [] \<Longrightarrow> segments e config innerTubeCaptions b = Inr []"
    by (simp add: segments_def matchAll_RE_XML_TRANSCRIPT)
  show ?thesis
    by (auto simp: r t s)
qed

text \<open>C10 as amended, at a run in which both tracks are empty.\<close>

theorem second_pipeline_content_witness:
  "fst (fetchTranscript (fallback_env (ok_response player_json) []) ''dQw4w9WgXcQ'' None [])
     = Inl (YoutubeTranscriptNotAvailableError ''dQw4w9WgXcQ'')"
proof -
  let ?e = "fallback_env (ok_response player_json) []"
  let ?c = "opt_get (opt_get player_data ''captions'') ''playerCaptionsTracklistRenderer''"
  have p: "JSON_parse ?e player_json = Some player_data"
    by code_simp
  have t: "truthy ?c" "truthy (opt_get ?c ''captionTracks'')"
    by (simp_all add: player_data_def)
  have u: "track_url None (opt_get ?c ''captionTracks'') = Inr (JStr ''https://t/2'')"
    by code_simp
  have n: "net ?e (innertube_track_request ''dQw4w9WgXcQ'' (JStr ''https://t/2'') None)
             = Some (ok_response [])"
    by code_simp
  show ?thesis
    using second_pipeline_content
      [OF example_identifier example_locate example_select example_track example_ok
          example_post example_ok p refl t u n example_ok]
    by simp
qed

text \<open>
  C10 as stated fails: the second path returns the empty list when the content of
  its track is \<open>x\<close>.
\<close>

theorem second_pipeline_empty_list_counterexample:
  "fst (fetchTranscript (fallback_env (ok_response player_json) ''x'') ''dQw4w9WgXcQ'' None [])
     = Inr []
   \<and> map url (snd (fetchTranscript (fallback_env (ok_response player_json) ''x'')
                     ''dQw4w9WgXcQ'' None []))
     = [JStr ''https://www.youtube.com/watch?v=dQw4w9WgXcQ'', JStr ''https://t/en'',
        JStr ''https://www.youtube.com/youtubei/v1/player'', JStr ''https://t/2'']"
  by code_simp

end
